theory Spec2Isabelle
  imports Main
begin

section \<open>HearSay backend: account resolution and onboarding\<close>

text \<open>
  A shallow embedding of \<^verbatim>\<open>backend/users/views.py\<close>, \<^verbatim>\<open>backend/users/services.py\<close>,
  \<^verbatim>\<open>backend/users/models.py\<close> and \<^verbatim>\<open>backend/onboarding/views.py\<close>. Python strings are
  \<open>string\<close>, Python integers are \<open>int\<close>, an exception is a value of \<open>exn\<close>
  returned on the left of a sum, and the database is an explicit state that every
  function takes and returns.
\<close>

subsection \<open>Python values\<close>

text \<open>
  \<open>str_split sep s\<close> is Python's \<^verbatim>\<open>s.split(sep)\<close> for a one-character separator:
  the pieces between the separators, in order, never an empty list. An element of a
  \<open>string\<close> stands for one character of the Python string.
\<close>

fun str_split :: "char \<Rightarrow> string \<Rightarrow> string list" where
  "str_split sep [] = [[]]"
| "str_split sep (c # cs) =
     (if c = sep then [] # str_split sep cs
      else (case str_split sep cs of
              [] \<Rightarrow> [[c]]
            | w # ws \<Rightarrow> (c # w) # ws))"

text \<open>Python's \<^verbatim>\<open>a or b\<close>: \<open>a\<close> when it is truthy, otherwise \<open>b\<close>. The empty string
  and \<^verbatim>\<open>None\<close> are falsy.\<close>

definition str_or :: "string \<Rightarrow> string \<Rightarrow> string" where
  "str_or a b = (if a \<noteq> [] then a else b)"

definition opt_or :: "string option \<Rightarrow> string \<Rightarrow> string" where
  "opt_or a b = (case a of None \<Rightarrow> b | Some s \<Rightarrow> str_or s b)"

definition truthy :: "string option \<Rightarrow> bool" where
  "truthy a = (case a of None \<Rightarrow> False | Some s \<Rightarrow> s \<noteq> [])"

subsection \<open>Username generation (users/views.py)\<close>

text \<open>
  \<^verbatim>\<open>string.ascii_lowercase + string.digits\<close>, and \<^verbatim>\<open>secrets.choice\<close>. The operating
  system's entropy is a parameter: \<open>rnd i\<close> is the \<open>i\<close>-th number drawn in the request,
  and \<^verbatim>\<open>secrets.choice(seq)\<close> indexes \<open>seq\<close> with the draw reduced below its length.
\<close>

definition ascii_lowercase_digits :: string where
  "ascii_lowercase_digits = ''abcdefghijklmnopqrstuvwxyz0123456789''"

definition secrets_choice :: "string \<Rightarrow> nat \<Rightarrow> char" where
  "secrets_choice seq r = seq ! (r mod length seq)"

text \<open>
  \<^verbatim>\<open>generate_username(email)\<close>. Each call draws six characters; \<open>k\<close> counts the calls
  already made in the request, so the call uses the draws \<open>6k .. 6k+5\<close>.
\<close>

definition generate_username :: "(nat \<Rightarrow> nat) \<Rightarrow> nat \<Rightarrow> string \<Rightarrow> string" where
  "generate_username rnd k email =
     (let prefix = take 20 (hd (str_split (CHR ''@'') email));
          suffix = map (\<lambda>i. secrets_choice ascii_lowercase_digits (rnd (6 * k + i))) [0..<6]
      in prefix @ ''_'' @ suffix)"


subsection \<open>Accounts (users/models.py)\<close>

text \<open>
  The password column of Django's \<^verbatim>\<open>AbstractUser\<close>: \<open>Blank\<close> is the empty string a
  row gets when no password is given, \<open>Unusable\<close> is what
  \<^verbatim>\<open>set_unusable_password()\<close> stores, \<open>Hashed h\<close> is a password hash.
\<close>

datatype password_hash = Blank | Unusable | Hashed string

text \<open>
  A row of the \<^verbatim>\<open>User\<close> table. \<open>pk\<close> is the primary key \<^verbatim>\<open>id\<close>. The two
  timestamps (\<^verbatim>\<open>created_at\<close>, \<^verbatim>\<open>updated_at\<close>) are left out: no clock is modelled.
\<close>

record User =
  pk :: nat
  username :: string
  email :: string
  first_name :: string
  last_name :: string
  password :: password_hash
  sso_provider :: "string option"
  sso_id :: "string option"
  onboarding_completed :: bool

text \<open>\<^verbatim>\<open>SSOUserInfo\<close> (users/services.py), its fields prefixed with \<open>ui_\<close>.\<close>

record SSOUserInfo =
  ui_provider :: string
  ui_sso_id :: string
  ui_email :: string
  ui_first_name :: "string option"
  ui_last_name :: "string option"

definition has_usable_password :: "User \<Rightarrow> bool" where
  "has_usable_password u = (password u \<noteq> Unusable)"

subsection \<open>JSON values and learner profiles\<close>

text \<open>A number with a fraction is \<open>JFloat m e\<close>, the value \<open>m\<close> times ten to the \<open>e\<close>.\<close>

datatype json =
    JNull
  | JBool bool
  | JInt int
  | JFloat int int
  | JStr string
  | JList "json list"
  | JObject "(string \<times> json) list"

text \<open>A row of the \<^verbatim>\<open>UserProfile\<close> table, keyed by its one-to-one \<^verbatim>\<open>user\<close>; the
  progress counters and the timestamps, which no function here writes, are left out.\<close>

record UserProfile =
  user_id :: nat
  target_language :: string
  native_language :: string
  proficiency_level :: string
  goals :: "json list"
  sessions_per_week :: int
  session_duration_minutes :: int
  notifications_enabled :: bool
  reminder_time :: "(int \<times> int) option"
  timezone :: string

subsection \<open>The database\<close>

text \<open>
  Exceptions of the program and of its libraries. \<open>IntegrityError\<close> is a constraint
  of the database violated, \<open>OperationalError\<close> a statement that did not reach the
  database. \<open>JWTError\<close> and \<open>JWKError\<close> are python-jose's, with their messages:
  a \<open>JWKError\<close> (a key without usable key material) is not a \<open>JWTError\<close>.
\<close>

datatype exn =
    TokenVerificationError string
  | JWTError string
  | JWKError string
  | ValueError string
  | KeyError string
  | AttributeError
  | OverflowError
  | ValidationError
  | IntegrityError
  | OperationalError

datatype stmt = Select | Insert | Update

text \<open>
  The database: the two tables, the next primary key of the \<^verbatim>\<open>User\<close> table, and the
  statements issued so far (Django's \<^verbatim>\<open>connection.queries\<close>) on these two tables.
  \<open>users\<close> is kept in primary-key order, the order of \<^verbatim>\<open>.first()\<close> on an unordered
  queryset. No transaction is open: every statement commits on its own (the settings
  do not set \<^verbatim>\<open>ATOMIC_REQUESTS\<close>).
\<close>

record db =
  users :: "User list"
  profiles :: "UserProfile list"
  next_id :: nat
  queries :: "stmt list"

text \<open>
  What \<^verbatim>\<open>requests.get\<close> gives: a \<^verbatim>\<open>RequestException\<close> (no connection, timeout), or
  a reply with its status code and its body when the body is JSON of the expected shape.
\<close>

datatype 'a http = RequestException string | Reply nat "'a option"

text \<open>A JSON object of string fields: the claims of a token, a key of a key set.\<close>

type_synonym claims = "(string \<times> string) list"

text \<open>
  What a request cannot decide: whether the statement issued after \<open>n\<close> others reaches
  the database (\<open>db_up n\<close>), the random draws (\<open>entropy\<close>), the identity providers'
  answers, the JWT libraries (\<^verbatim>\<open>jose.jwt\<close>, with the exception it raises on the left,
  and \<^verbatim>\<open>RefreshToken.for_user\<close> giving the access and the refresh token),
  Python's \<^verbatim>\<open>int(str)\<close> and Django's \<^verbatim>\<open>BooleanField.to_python\<close> (\<open>None\<close> where they
  raise), and the settings.
\<close>

record world =
  db_up :: "nat \<Rightarrow> bool"
  entropy :: "nat \<Rightarrow> nat"
  apple_keys_get :: "(claims list option) http"
  google_tokeninfo_get :: "string \<Rightarrow> claims http"
  jwt_get_unverified_header :: "string \<Rightarrow> exn + claims"
  jwt_decode :: "string \<Rightarrow> claims \<Rightarrow> string \<Rightarrow> string \<Rightarrow> exn + claims"
  jwt_for_user :: "User \<Rightarrow> string \<times> string"
  int_of_str :: "string \<Rightarrow> int option"
  boolean_to_python :: "json \<Rightarrow> bool option"
  APPLE_CLIENT_ID :: string
  GOOGLE_CLIENT_ID :: string
  DEBUG :: bool

definition issue :: "stmt \<Rightarrow> db \<Rightarrow> db" where
  "issue q d = d\<lparr>queries := queries d @ [q]\<rparr>"

text \<open>\<^verbatim>\<open>User.objects.filter(...).first()\<close> and \<^verbatim>\<open>User.objects.filter(...).exists()\<close>.\<close>

definition users_first :: "world \<Rightarrow> (User \<Rightarrow> bool) \<Rightarrow> db \<Rightarrow> (exn + User option) \<times> db" where
  "users_first w P d =
     (if db_up w (length (queries d)) then (Inr (find P (users d)), issue Select d)
      else (Inl OperationalError, issue Select d))"

definition users_exists :: "world \<Rightarrow> (User \<Rightarrow> bool) \<Rightarrow> db \<Rightarrow> (exn + bool) \<times> db" where
  "users_exists w P d =
     (if db_up w (length (queries d)) then (Inr (list_ex P (users d)), issue Select d)
      else (Inl OperationalError, issue Select d))"

text \<open>
  The uniqueness constraints of models.py: \<^verbatim>\<open>username\<close> (Django's \<^verbatim>\<open>AbstractUser\<close>),
  \<^verbatim>\<open>email\<close> (\<^verbatim>\<open>unique=True\<close>) and \<^verbatim>\<open>sso_id\<close> (\<^verbatim>\<open>unique=True\<close>, \<^verbatim>\<open>null=True\<close>: NULLs
  never collide). \<open>violates_unique row rows\<close>: another row of \<open>rows\<close> collides with
  \<open>row\<close>.
\<close>

definition violates_unique :: "User \<Rightarrow> User list \<Rightarrow> bool" where
  "violates_unique row rows =
     list_ex (\<lambda>r. pk r \<noteq> pk row \<and>
                (username r = username row \<or> email r = email row \<or>
                 (sso_id row \<noteq> None \<and> sso_id r = sso_id row))) rows"

text \<open>\<^verbatim>\<open>User.objects.create(**kwargs)\<close>: one INSERT; the database assigns the key.\<close>

definition users_create :: "world \<Rightarrow> User \<Rightarrow> db \<Rightarrow> (exn + User) \<times> db" where
  "users_create w kwargs d =
     (if \<not> db_up w (length (queries d)) then (Inl OperationalError, issue Insert d)
      else
        let row = kwargs\<lparr>pk := next_id d\<rparr> in
        if violates_unique row (users d) then (Inl IntegrityError, issue Insert d)
        else (Inr row, (issue Insert d)\<lparr>users := users d @ [row], next_id := Suc (next_id d)\<rparr>))"

text \<open>
  \<^verbatim>\<open>obj.save(...)\<close> on an object loaded from the table: one UPDATE of the row with the
  object's key. \<open>cols obj row\<close> is the row after the update: \<open>all_fields\<close> for a plain
  \<^verbatim>\<open>save()\<close>, the listed columns for \<^verbatim>\<open>save(update_fields=[...])\<close>.
\<close>

definition users_save :: "world \<Rightarrow> (User \<Rightarrow> User \<Rightarrow> User) \<Rightarrow> User \<Rightarrow> db \<Rightarrow> (exn + unit) \<times> db" where
  "users_save w cols obj d =
     (if \<not> db_up w (length (queries d)) then (Inl OperationalError, issue Update d)
      else if list_ex (\<lambda>r. pk r = pk obj \<and> violates_unique (cols obj r) (users d)) (users d)
      then (Inl IntegrityError, issue Update d)
      else (Inr (), (issue Update d)\<lparr>users := map (\<lambda>r. if pk r = pk obj then cols obj r else r) (users d)\<rparr>))"

definition all_fields :: "User \<Rightarrow> User \<Rightarrow> User" where
  "all_fields obj row = obj"

definition sso_fields :: "User \<Rightarrow> User \<Rightarrow> User" where
  "sso_fields obj row = row\<lparr>sso_provider := sso_provider obj, sso_id := sso_id obj\<rparr>"

definition onboarding_field :: "User \<Rightarrow> User \<Rightarrow> User" where
  "onboarding_field obj row = row\<lparr>onboarding_completed := onboarding_completed obj\<rparr>"

subsection \<open>Account resolution (users/views.py)\<close>

text \<open>
  The loop of \<^verbatim>\<open>find_or_create_user\<close> that regenerates the username while it is taken.
  \<open>k\<close> counts the calls of \<^verbatim>\<open>generate_username\<close> made so far. The source puts no bound
  on the loop: where it never ends the value is \<open>None\<close>.
\<close>

partial_function (option) unique_username ::
    "world \<Rightarrow> string \<Rightarrow> nat \<Rightarrow> string \<Rightarrow> db \<Rightarrow> ((exn + string) \<times> db) option" where
  "unique_username w seed k uname d =
     (case users_exists w (\<lambda>u. username u = uname) d of
        (Inl e, d') \<Rightarrow> Some (Inl e, d')
      | (Inr taken, d') \<Rightarrow>
          if taken then unique_username w seed (Suc k) (generate_username (entropy w) k seed) d'
          else Some (Inr uname, d'))"

text \<open>
  \<^verbatim>\<open>find_or_create_user(user_info)\<close>: the result is the exception raised or the account
  returned, with the database after the call.
\<close>

definition find_or_create_user :: "world \<Rightarrow> SSOUserInfo \<Rightarrow> db \<Rightarrow> ((exn + User) \<times> db) option" where
  "find_or_create_user w user_info d =
     (case users_first w (\<lambda>u. sso_provider u = Some (ui_provider user_info)
                              \<and> sso_id u = Some (ui_sso_id user_info)) d of
        (Inl e, d1) \<Rightarrow> Some (Inl e, d1)
      | (Inr (Some user), d1) \<Rightarrow> Some (Inr user, d1)
      | (Inr None, d1) \<Rightarrow>
          (case (if ui_email user_info \<noteq> []
                 then users_first w (\<lambda>u. email u = ui_email user_info) d1
                 else (Inr None, d1)) of
             (Inl e, d2) \<Rightarrow> Some (Inl e, d2)
           | (Inr (Some found), d2) \<Rightarrow>
               (let user = found\<lparr>sso_provider := Some (ui_provider user_info),
                                 sso_id := Some (ui_sso_id user_info)\<rparr> in
                case users_save w sso_fields user d2 of
                  (Inl e, d3) \<Rightarrow> Some (Inl e, d3)
                | (Inr _, d3) \<Rightarrow> Some (Inr user, d3))
           | (Inr None, d2) \<Rightarrow>
               (case unique_username w (str_or (ui_email user_info) ''user'') 1
                       (generate_username (entropy w) 0 (str_or (ui_email user_info) ''user'')) d2 of
                  None \<Rightarrow> None
                | Some (Inl e, d3) \<Rightarrow> Some (Inl e, d3)
                | Some (Inr uname, d3) \<Rightarrow>
                    (case users_create w
                            \<lparr>pk = 0, username = uname, email = ui_email user_info,
                             first_name = opt_or (ui_first_name user_info) [],
                             last_name = opt_or (ui_last_name user_info) [],
                             password = Blank,
                             sso_provider = Some (ui_provider user_info),
                             sso_id = Some (ui_sso_id user_info),
                             onboarding_completed = False\<rparr> d3 of
                       (Inl e, d4) \<Rightarrow> Some (Inl e, d4)
                     | (Inr created, d4) \<Rightarrow>
                         (let user = created\<lparr>password := Unusable\<rparr> in
                          case users_save w all_fields user d4 of
                            (Inl e, d5) \<Rightarrow> Some (Inl e, d5)
                          | (Inr _, d5) \<Rightarrow> Some (Inr user, d5))))))"

subsection \<open>Proficiency classifier (onboarding/views.py)\<close>

definition calculate_proficiency :: "int \<Rightarrow> string" where
  "calculate_proficiency quiz_score =
     (if quiz_score \<le> 1 then ''beginner''
      else if quiz_score \<le> 3 then ''elementary''
      else if quiz_score = 4 then ''intermediate''
      else ''upper_intermediate'')"

subsection \<open>Token verification (users/services.py)\<close>

text \<open>
  \<^verbatim>\<open>verify_apple_token(id_token)\<close>. The \<^verbatim>\<open>except\<close> clauses turn a \<^verbatim>\<open>JWTError\<close> and a
  \<^verbatim>\<open>RequestException\<close> (which \<^verbatim>\<open>raise_for_status()\<close> and \<^verbatim>\<open>response.json()\<close> raise
  too) into a \<^verbatim>\<open>TokenVerificationError\<close>; any other exception of the JWT library
  leaves the function as it is, and a missing \<^verbatim>\<open>sub\<close> is a \<^verbatim>\<open>KeyError\<close>.
\<close>

definition verify_apple_token :: "world \<Rightarrow> string \<Rightarrow> exn + SSOUserInfo" where
  "verify_apple_token w id_token =
     (case apple_keys_get w of
        RequestException e \<Rightarrow> Inl (TokenVerificationError ''Failed to verify Apple token'')
      | Reply status_code body \<Rightarrow>
          if 400 \<le> status_code \<and> status_code < 600
          then Inl (TokenVerificationError ''Failed to verify Apple token'')
          else
            (case body of
               None \<Rightarrow> Inl (TokenVerificationError ''Failed to verify Apple token'')
             | Some apple_keys \<Rightarrow>
                 (case jwt_get_unverified_header w id_token of
                    Inl (JWTError e) \<Rightarrow> Inl (TokenVerificationError (''Invalid Apple token: '' @ e))
                  | Inl other \<Rightarrow> Inl other
                  | Inr unverified_header \<Rightarrow>
                      (let kid = map_of unverified_header ''kid'';
                           key = find (\<lambda>k. map_of k ''kid'' = kid)
                                   (case apple_keys of None \<Rightarrow> [] | Some ks \<Rightarrow> ks)
                       in case key of
                            None \<Rightarrow> Inl (TokenVerificationError ''Apple public key not found'')
                          | Some k \<Rightarrow>
                              if k = [] then Inl (TokenVerificationError ''Apple public key not found'')
                              else
                                (case jwt_decode w id_token k
                                        (str_or (APPLE_CLIENT_ID w) ''com.hearsay.app'')
                                        ''https://appleid.apple.com'' of
                                   Inl (JWTError e) \<Rightarrow>
                                     Inl (TokenVerificationError (''Invalid Apple token: '' @ e))
                                 | Inl other \<Rightarrow> Inl other
                                 | Inr payload \<Rightarrow>
                                     (case map_of payload ''sub'' of
                                        None \<Rightarrow> Inl (KeyError ''sub'')
                                      | Some sub \<Rightarrow>
                                          Inr \<lparr>ui_provider = ''apple'', ui_sso_id = sub,
                                               ui_email = (case map_of payload ''email'' of
                                                             None \<Rightarrow> [] | Some e \<Rightarrow> e),
                                               ui_first_name = None,
                                               ui_last_name = None\<rparr>))))))"

definition verify_google_token :: "world \<Rightarrow> string \<Rightarrow> exn + SSOUserInfo" where
  "verify_google_token w id_token =
     (case google_tokeninfo_get w id_token of
        RequestException e \<Rightarrow> Inl (TokenVerificationError ''Failed to verify Google token'')
      | Reply status_code body \<Rightarrow>
          if status_code \<noteq> 200 then Inl (TokenVerificationError ''Invalid Google token'')
          else
            (case body of
               None \<Rightarrow> Inl (TokenVerificationError ''Failed to verify Google token'')
             | Some payload \<Rightarrow>
                 if GOOGLE_CLIENT_ID w \<noteq> [] \<and> map_of payload ''aud'' \<noteq> Some (GOOGLE_CLIENT_ID w)
                 then Inl (TokenVerificationError ''Invalid Google token audience'')
                 else if map_of payload ''iss'' \<notin>
                           {Some ''accounts.google.com'', Some ''https://accounts.google.com''}
                 then Inl (TokenVerificationError ''Invalid Google token issuer'')
                 else
                   (case map_of payload ''sub'' of
                      None \<Rightarrow> Inl (KeyError ''sub'')
                    | Some sub \<Rightarrow>
                        Inr \<lparr>ui_provider = ''google'', ui_sso_id = sub,
                             ui_email = (case map_of payload ''email'' of None \<Rightarrow> [] | Some e \<Rightarrow> e),
                             ui_first_name = map_of payload ''given_name'',
                             ui_last_name = map_of payload ''family_name''\<rparr>)))"

definition verify_sso_token :: "world \<Rightarrow> string \<Rightarrow> string \<Rightarrow> exn + SSOUserInfo" where
  "verify_sso_token w provider id_token =
     (if provider = ''apple'' then verify_apple_token w id_token
      else if provider = ''google'' then verify_google_token w id_token
      else Inl (ValueError (''Unsupported SSO provider: '' @ provider)))"

definition verify_sso_token_dev :: "world \<Rightarrow> string \<Rightarrow> string \<Rightarrow> string option \<Rightarrow> exn + SSOUserInfo" where
  "verify_sso_token_dev w provider id_token email_arg =
     (if \<not> DEBUG w then Inl (TokenVerificationError ''Dev verification not allowed in production'')
      else Inr \<lparr>ui_provider = provider,
                ui_sso_id = (if id_token \<noteq> [] then ''dev_'' @ take 20 id_token else ''dev_test_user''),
                ui_email = opt_or email_arg ''dev@example.com'',
                ui_first_name = Some ''Dev'',
                ui_last_name = Some ''User''\<rparr>)"

subsection \<open>The sign-in endpoint (users/views.py)\<close>

text \<open>
  The body of a sign-in request, its fields at their documented types (a missing key is
  \<open>None\<close>), and a DRF response: the status code and the body. \<open>AuthData access refresh u\<close>
  is the success body, \<open>u\<close> standing for \<^verbatim>\<open>UserSerializer(user).data\<close>; issuing the
  tokens and serializing are taken not to fail, and what the serializers read from the
  database is not modelled.
\<close>

record sso_request =
  rq_provider :: "string option"
  rq_id_token :: "string option"
  rq_email :: "string option"
  rq_first_name :: "string option"
  rq_last_name :: "string option"
  rq_dev_mode :: bool

datatype body =
    Detail string
  | AuthData string string User
  | OnboardingData User UserProfile

datatype response = Response nat body

definition dq :: string where
  "dq = [CHR 0x22]"

text \<open>The first statements of the \<^verbatim>\<open>try\<close> block of \<^verbatim>\<open>sso_authenticate\<close>: the
  verification and the three overrides from the request body.\<close>

definition sso_user_info :: "world \<Rightarrow> sso_request \<Rightarrow> string \<Rightarrow> string \<Rightarrow> exn + SSOUserInfo" where
  "sso_user_info w request provider id_token =
     (case (if DEBUG w \<and> rq_dev_mode request
            then verify_sso_token_dev w provider id_token (rq_email request)
            else verify_sso_token w provider id_token) of
        Inl e \<Rightarrow> Inl e
      | Inr verified \<Rightarrow>
          (let i1 = (if truthy (rq_first_name request)
                     then verified\<lparr>ui_first_name := rq_first_name request\<rparr> else verified);
               i2 = (if truthy (rq_last_name request)
                     then i1\<lparr>ui_last_name := rq_last_name request\<rparr> else i1);
               i3 = (if truthy (rq_email request) \<and> ui_email i2 = []
                     then i2\<lparr>ui_email := opt_or (rq_email request) []\<rparr> else i2)
           in Inr i3))"

text \<open>
  \<^verbatim>\<open>sso_authenticate(request)\<close>: the two validations, the \<^verbatim>\<open>try\<close> block, and the two
  \<^verbatim>\<open>except\<close> clauses.
\<close>

definition sso_authenticate :: "world \<Rightarrow> sso_request \<Rightarrow> db \<Rightarrow> (response \<times> db) option" where
  "sso_authenticate w request d =
     (let provider = rq_provider request; id_token = rq_id_token request in
      if \<not> truthy provider \<or> provider \<notin> {Some ''apple'', Some ''google''}
      then Some (Response 400 (Detail (''Invalid provider. Must be '' @ dq @ ''apple'' @ dq
                                        @ '' or '' @ dq @ ''google'' @ dq @ ''.'')), d)
      else if \<not> truthy id_token
      then Some (Response 400 (Detail ''id_token is required.''), d)
      else
        (case (case sso_user_info w request (opt_or provider []) (opt_or id_token []) of
                 Inl e \<Rightarrow> Some (Inl e, d)
               | Inr user_info \<Rightarrow> find_or_create_user w user_info d) of
           None \<Rightarrow> None
         | Some (Inr user, d') \<Rightarrow>
             Some (Response 200 (AuthData (fst (jwt_for_user w user)) (snd (jwt_for_user w user)) user), d')
         | Some (Inl (TokenVerificationError msg), d') \<Rightarrow> Some (Response 401 (Detail msg), d')
         | Some (Inl e, d') \<Rightarrow>
             Some (Response 500 (Detail ''Authentication failed. Please try again.''), d')))"

subsection \<open>Onboarding (onboarding/views.py)\<close>

fun json_truthy :: "json \<Rightarrow> bool" where
  "json_truthy JNull = False"
| "json_truthy (JBool b) = b"
| "json_truthy (JInt i) = (i \<noteq> 0)"
| "json_truthy (JFloat m e) = (m \<noteq> 0)"
| "json_truthy (JStr s) = (s \<noteq> [])"
| "json_truthy (JList xs) = (xs \<noteq> [])"
| "json_truthy (JObject kvs) = (kvs \<noteq> [])"

text \<open>\<^verbatim>\<open>isinstance(v, int)\<close> with the integer: a Python \<^verbatim>\<open>bool\<close> is an \<^verbatim>\<open>int\<close>.\<close>

fun json_int :: "json \<Rightarrow> int option" where
  "json_int (JInt i) = Some i"
| "json_int (JBool b) = Some (if b then 1 else 0)"
| "json_int v = None"

fun json_str :: "json \<Rightarrow> string" where
  "json_str (JStr s) = s"
| "json_str v = []"

text \<open>\<^verbatim>\<open>request.data.get(key, default)\<close>; a JSON \<^verbatim>\<open>null\<close> is Python's \<^verbatim>\<open>None\<close>.\<close>

definition data_get :: "(string \<times> json) list \<Rightarrow> string \<Rightarrow> json \<Rightarrow> json" where
  "data_get data key dflt = (case map_of data key of None \<Rightarrow> dflt | Some v \<Rightarrow> v)"

text \<open>
  \<^verbatim>\<open>parse_time(time_str)\<close>: \<^verbatim>\<open>ValueError\<close> and \<^verbatim>\<open>IndexError\<close> give \<^verbatim>\<open>None\<close>; a truthy
  value that is not a string has no \<^verbatim>\<open>split\<close>, and the \<^verbatim>\<open>AttributeError\<close> leaves the
  function; so does the \<^verbatim>\<open>OverflowError\<close> of \<^verbatim>\<open>time(h, m)\<close> for an hour or minute that
  does not fit a C \<^verbatim>\<open>int\<close>. A \<^verbatim>\<open>time\<close> is its hour and minute.
\<close>

definition c_int :: "int \<Rightarrow> bool" where
  "c_int i = (- (2 ^ 31) \<le> i \<and> i < 2 ^ 31)"

definition parse_time :: "world \<Rightarrow> json \<Rightarrow> exn + (int \<times> int) option" where
  "parse_time w time_str =
     (if \<not> json_truthy time_str then Inr None
      else
        (case time_str of
           JStr s \<Rightarrow>
             (let parts = str_split (CHR '':'') s in
              case int_of_str w (hd parts) of
                None \<Rightarrow> Inr None
              | Some h \<Rightarrow>
                  if length parts < 2 then Inr None
                  else
                    (case int_of_str w (parts ! 1) of
                       None \<Rightarrow> Inr None
                     | Some m \<Rightarrow>
                         if \<not> c_int h \<or> \<not> c_int m then Inl OverflowError
                         else if 0 \<le> h \<and> h \<le> 23 \<and> 0 \<le> m \<and> m \<le> 59 then Inr (Some (h, m))
                         else Inr None))
         | _ \<Rightarrow> Inl AttributeError))"

text \<open>
  \<^verbatim>\<open>UserProfile.objects.update_or_create(user=user, defaults={...})\<close>: a SELECT, then an
  UPDATE of the profile found or an INSERT of a new one, whose other columns take the
  defaults of models.py. A value that \<^verbatim>\<open>BooleanField\<close> cannot convert raises before
  the write is issued. A \<^verbatim>\<open>null\<close> for \<^verbatim>\<open>notifications_enabled\<close> is not converted: it
  goes to the database, which rejects it (the column is NOT NULL); after a rejected
  INSERT Django's \<^verbatim>\<open>get_or_create\<close> looks the row up once more before it re-raises.
\<close>

definition profiles_update_or_create ::
    "world \<Rightarrow> User \<Rightarrow> string \<Rightarrow> string \<Rightarrow> json list \<Rightarrow> int \<Rightarrow> json \<Rightarrow> (int \<times> int) option
       \<Rightarrow> db \<Rightarrow> (exn + UserProfile) \<times> db" where
  "profiles_update_or_create w user lang level gs spw ne rt d =
     (if \<not> db_up w (length (queries d)) then (Inl OperationalError, issue Select d)
      else
        let d1 = issue Select d in
        case find (\<lambda>p. user_id p = pk user) (profiles d) of
          Some obj \<Rightarrow>
            (if ne = JNull
             then (if \<not> db_up w (length (queries d1)) then (Inl OperationalError, issue Update d1)
                   else (Inl IntegrityError, issue Update d1))
             else
               (case boolean_to_python w ne of
                  None \<Rightarrow> (Inl ValidationError, d1)
                | Some ne_bool \<Rightarrow>
                    (let obj' = obj\<lparr>target_language := lang, proficiency_level := level,
                                    goals := gs, sessions_per_week := spw,
                                    notifications_enabled := ne_bool, reminder_time := rt\<rparr> in
                     if \<not> db_up w (length (queries d1))
                     then (Inl OperationalError, issue Update d1)
                     else (Inr obj',
                           (issue Update d1)\<lparr>profiles :=
                              map (\<lambda>p. if user_id p = pk user then obj' else p) (profiles d)\<rparr>))))
        | None \<Rightarrow>
            (if ne = JNull
             then (if \<not> db_up w (length (queries d1)) then (Inl OperationalError, issue Insert d1)
                   else
                     let d2 = issue Insert d1 in
                     if \<not> db_up w (length (queries d2)) then (Inl OperationalError, issue Select d2)
                     else (Inl IntegrityError, issue Select d2))
             else
               (case boolean_to_python w ne of
                  None \<Rightarrow> (Inl ValidationError, d1)
                | Some ne_bool \<Rightarrow>
                    (let obj = \<lparr>user_id = pk user, target_language = lang, native_language = ''en'',
                                proficiency_level = level, goals = gs, sessions_per_week = spw,
                                session_duration_minutes = 15, notifications_enabled = ne_bool,
                                reminder_time = rt, timezone = ''UTC''\<rparr> in
                     if \<not> db_up w (length (queries d1))
                     then (Inl OperationalError, issue Insert d1)
                     else (Inr obj, (issue Insert d1)\<lparr>profiles := profiles d @ [obj]\<rparr>)))))"

record onboarding_request =
  req_user :: User
  req_data :: "(string \<times> json) list"

text \<open>
  \<^verbatim>\<open>complete_onboarding(request)\<close>: on the left an exception that leaves the view, on
  the right its response.
\<close>

definition complete_onboarding ::
    "world \<Rightarrow> onboarding_request \<Rightarrow> db \<Rightarrow> (exn + response) \<times> db" where
  "complete_onboarding w request d =
     (let user = req_user request in
      if onboarding_completed user
      then (Inr (Response 400 (Detail ''Onboarding already completed.'')), d)
      else
        let target_language = data_get (req_data request) ''target_language'' JNull in
        if \<not> json_truthy target_language \<or> target_language \<notin> {JStr ''es'', JStr ''fr''}
        then (Inr (Response 400 (Detail (''Invalid target_language. Must be '' @ dq @ ''es'' @ dq
                                          @ '' or '' @ dq @ ''fr'' @ dq @ ''.''))), d)
        else
          (case json_int (data_get (req_data request) ''quiz_score'' (JInt 0)) of
             None \<Rightarrow> (Inr (Response 400 (Detail ''Invalid quiz_score. Must be integer 0-5.'')), d)
           | Some quiz_score \<Rightarrow>
               if quiz_score < 0 \<or> quiz_score > 5
               then (Inr (Response 400 (Detail ''Invalid quiz_score. Must be integer 0-5.'')), d)
               else
                 (case data_get (req_data request) ''goals'' (JList []) of
                    JList goals_list \<Rightarrow>
                      (let spw = (case json_int (data_get (req_data request) ''sessions_per_week'' (JInt 3)) of
                                    None \<Rightarrow> 3
                                  | Some n \<Rightarrow> if n < 1 \<or> n > 7 then 3 else n);
                           ne = data_get (req_data request) ''notifications_enabled'' (JBool True);
                           reminder_time_str = data_get (req_data request) ''reminder_time'' JNull
                       in case parse_time w reminder_time_str of
                            Inl e \<Rightarrow> (Inl e, d)
                          | Inr rt \<Rightarrow>
                              (let pl = calculate_proficiency quiz_score in
                               case profiles_update_or_create w user (json_str target_language)
                                      pl goals_list spw ne rt d of
                                 (Inl e, d1) \<Rightarrow>
                                   (Inr (Response 500 (Detail
                                      ''Failed to complete onboarding. Please try again.'')), d1)
                               | (Inr profile, d1) \<Rightarrow>
                                   (let user' = user\<lparr>onboarding_completed := True\<rparr> in
                                    case users_save w onboarding_field user' d1 of
                                      (Inl e, d2) \<Rightarrow>
                                        (Inr (Response 500 (Detail
                                           ''Failed to complete onboarding. Please try again.'')), d2)
                                    | (Inr _, d2) \<Rightarrow>
                                        (Inr (Response 200 (OnboardingData user' profile)), d2))))
                  | _ \<Rightarrow> (Inr (Response 400 (Detail ''Invalid goals. Must be a list.'')), d))))"

subsection \<open>Well-formed databases and a sample world\<close>

text \<open>
  A database as the store keeps it: primary keys distinct and below the next key, and no
  row in conflict with another under the uniqueness constraints.
\<close>

definition wf_db :: "db \<Rightarrow> bool" where
  "wf_db d = (distinct (map pk (users d))
              \<and> list_all (\<lambda>u. pk u < next_id d) (users d)
              \<and> list_all (\<lambda>u. \<not> violates_unique u (users d)) (users d))"

text \<open>Every statement of the request reaches the database.\<close>

definition reliable :: "world \<Rightarrow> bool" where
  "reliable w = (\<forall>n. db_up w n)"

text \<open>
  A sample world and database for the concrete evaluations: the database always answers,
  the \<open>i\<close>-th draw is \<open>i\<close>, Apple's key set has the key \<open>k1\<close>, and the JWT library
  accepts every token as one of subject \<open>a-888\<close>.
\<close>

definition world0 :: world where
  "world0 = \<lparr>db_up = (\<lambda>n. True), entropy = (\<lambda>i. i),
              apple_keys_get = Reply 200 (Some (Some [[(''kid'', ''k1'')]])),
              google_tokeninfo_get = (\<lambda>t. Reply 400 None),
              jwt_get_unverified_header = (\<lambda>t. Inr [(''kid'', ''k1'')]),
              jwt_decode = (\<lambda>t key aud iss.
                 Inr [(''sub'', ''a-888''), (''email'', ''bob@other.example'')]),
              jwt_for_user = (\<lambda>u. (''access'', ''refresh'')),
              int_of_str = (\<lambda>s. None),
              boolean_to_python = (\<lambda>v. case v of JBool b \<Rightarrow> Some b | _ \<Rightarrow> None),
              APPLE_CLIENT_ID = [], GOOGLE_CLIENT_ID = [], DEBUG = False\<rparr>"

definition alice :: User where
  "alice = \<lparr>pk = 1, username = ''alice_k3x9aa'', email = ''alice@example.com'',
             first_name = ''Alice'', last_name = [], password = Unusable,
             sso_provider = Some ''google'', sso_id = Some ''123'',
             onboarding_completed = True\<rparr>"

definition bob :: User where
  "bob = \<lparr>pk = 2, username = ''bob_abcdef'', email = ''bob@example.com'',
           first_name = ''Bob'', last_name = ''B'', password = Hashed ''pbkdf2'',
           sso_provider = None, sso_id = None,
           onboarding_completed = False\<rparr>"

definition db0 :: db where
  "db0 = \<lparr>users = [alice, bob], profiles = [], next_id = 3, queries = []\<rparr>"

definition assertion :: "string \<Rightarrow> string \<Rightarrow> string \<Rightarrow> SSOUserInfo" where
  "assertion p s e = \<lparr>ui_provider = p, ui_sso_id = s, ui_email = e,
                       ui_first_name = None, ui_last_name = None\<rparr>"

text \<open>
  A sign-in request with an Apple token, and four variations of the sample world: the
  token's subject is \<open>123\<close> (which \<open>alice\<close> holds under google); the database is
  down for the fifth statement of the request; Apple's key endpoint times out; the
  token's signature does not verify. \<open>bob_linked\<close> is \<open>bob\<close> after a link to an Apple
  identity, \<open>bob_other\<close> a new account as provisioning leaves it, \<open>carol_blank\<close> a row
  as the INSERT of provisioning writes it.
\<close>

definition apple_request :: sso_request where
  "apple_request = \<lparr>rq_provider = Some ''apple'', rq_id_token = Some ''eyJ.tok'',
                      rq_email = None, rq_first_name = None, rq_last_name = None,
                      rq_dev_mode = False\<rparr>"

definition world_clash :: world where
  "world_clash = world0\<lparr>jwt_decode := (\<lambda>t key aud iss.
                     Inr [(''sub'', ''123''), (''email'', ''carol@example.com'')])\<rparr>"

definition world_outage :: world where
  "world_outage = world0\<lparr>db_up := (\<lambda>n. n \<noteq> 4)\<rparr>"

definition world_timeout :: world where
  "world_timeout = world0\<lparr>apple_keys_get := RequestException ''timed out''\<rparr>"

definition world_forged :: world where
  "world_forged = world0\<lparr>jwt_decode := (\<lambda>t key aud iss.
                      Inl (JWTError ''Signature verification failed.''))\<rparr>"

definition bob_linked :: User where
  "bob_linked = bob\<lparr>sso_provider := Some ''apple'', sso_id := Some ''a-777''\<rparr>"

definition bob_other :: User where
  "bob_other = \<lparr>pk = 3, username = ''bob_ghijkl'', email = ''bob@other.example'',
                 first_name = [], last_name = [], password = Unusable,
                 sso_provider = Some ''apple'', sso_id = Some ''a-888'',
                 onboarding_completed = False\<rparr>"

definition carol_blank :: User where
  "carol_blank = \<lparr>pk = 3, username = ''carol_abcdef'', email = ''carol@example.com'',
                   first_name = [], last_name = [], password = Blank,
                   sso_provider = Some ''apple'', sso_id = Some ''a-888'',
                   onboarding_completed = False\<rparr>"

section \<open>Theorems\<close>

text \<open>
  C9. The proficiency classifier is a total function of the quiz score alone. On the
  closed range 0..5 it sends 0 and 1 to beginner, 2 and 3 to elementary, 4 to
  intermediate and 5 to upper_intermediate; the six values are listed, and every score
  of the range is one of them.
\<close>

theorem calculate_proficiency_table:
  assumes "0 \<le> q" and "q \<le> 5"
  shows "calculate_proficiency q =
           (if q = 0 \<or> q = 1 then ''beginner''
            else if q = 2 \<or> q = 3 then ''elementary''
            else if q = 4 then ''intermediate''
            else ''upper_intermediate'')
         \<and> (q = 5 \<or> q = 4 \<or> q = 3 \<or> q = 2 \<or> q = 1 \<or> q = 0)
         \<and> calculate_proficiency 0 = ''beginner''
         \<and> calculate_proficiency 1 = ''beginner''
         \<and> calculate_proficiency 2 = ''elementary''
         \<and> calculate_proficiency 3 = ''elementary''
         \<and> calculate_proficiency 4 = ''intermediate''
         \<and> calculate_proficiency 5 = ''upper_intermediate''"
proof -
  have range: "q = 5 \<or> q = 4 \<or> q = 3 \<or> q = 2 \<or> q = 1 \<or> q = 0"
    using assms by arith
  have tab: "calculate_proficiency q =
           (if q = 0 \<or> q = 1 then ''beginner''
            else if q = 2 \<or> q = 3 then ''elementary''
            else if q = 4 then ''intermediate''
            else ''upper_intermediate'')"
    using range by (auto simp: calculate_proficiency_def)
  show ?thesis
    using range tab by (simp add: calculate_proficiency_def)
qed

theorem calculate_proficiency_table_witness:
  "(0::int) \<le> 4 \<and> (4::int) \<le> 5 \<and> calculate_proficiency 4 = ''intermediate''"
  using calculate_proficiency_table [of 4] by simp

subsection \<open>Username generation\<close>





subsection \<open>The database operations and the username loop\<close>

lemma users_issue [simp]: "users (issue q d) = users d" "next_id (issue q d) = next_id d"
  "profiles (issue q d) = profiles d" "queries (issue q d) = queries d @ [q]"
  by (simp_all add: issue_def)

lemma users_first_cases:
  "users_first w P d = (res, d') \<Longrightarrow>
     d' = issue Select d \<and> (res = Inl OperationalError \<or> res = Inr (find P (users d)))"
  by (auto simp: users_first_def split: if_splits)

lemma users_save_cases:
  "users_save w cols obj d = (res, d') \<Longrightarrow>
     (\<exists>e. res = Inl e \<and> d' = issue Update d)
   \<or> (res = Inr () \<and> d' = (issue Update d)\<lparr>users := map (\<lambda>r. if pk r = pk obj then cols obj r else r) (users d)\<rparr>)"
  by (auto simp: users_save_def split: if_splits)

lemma users_create_cases:
  "users_create w kwargs d = (res, d') \<Longrightarrow>
     (\<exists>e. res = Inl e \<and> d' = issue Insert d)
   \<or> (res = Inr (kwargs\<lparr>pk := next_id d\<rparr>) \<and> \<not> violates_unique (kwargs\<lparr>pk := next_id d\<rparr>) (users d)
        \<and> d' = (issue Insert d)\<lparr>users := users d @ [kwargs\<lparr>pk := next_id d\<rparr>], next_id := Suc (next_id d)\<rparr>)"
  by (auto simp: users_create_def Let_def split: if_splits)

text \<open>The username loop only reads: whatever it returns, the tables are as before.\<close>

lemma unique_username_frame_aux:
  assumes "unique_username w seed k uname d = Some y"
  shows "users (snd y) = users d \<and> next_id (snd y) = next_id d \<and> profiles (snd y) = profiles d"
proof (rule unique_username.raw_induct
    [where P = "\<lambda>w seed k uname d y.
       users (snd y) = users d \<and> next_id (snd y) = next_id d \<and> profiles (snd y) = profiles d",
     OF _ assms])
  fix f w seed k uname d y
  assume IH: "\<And>w seed k uname d y. f w seed k uname d = Some y \<Longrightarrow>
       users (snd y) = users d \<and> next_id (snd y) = next_id d \<and> profiles (snd y) = profiles d"
    and body: "(case users_exists w (\<lambda>u. username u = uname) d of
        (Inl e, d') \<Rightarrow> Some (Inl e, d')
      | (Inr taken, d') \<Rightarrow>
          if taken then f w seed (Suc k) (generate_username (entropy w) k seed) d'
          else Some (Inr uname, d')) = Some y"
  show "users (snd y) = users d \<and> next_id (snd y) = next_id d \<and> profiles (snd y) = profiles d"
  proof (cases "db_up w (length (queries d))")
    case False
    with body show ?thesis by (auto simp: users_exists_def)
  next
    case True
    show ?thesis
    proof (cases "list_ex (\<lambda>u. username u = uname) (users d)")
      case False
      with True body show ?thesis by (auto simp: users_exists_def)
    next
      case taken: True
      with True body have
        "f w seed (Suc k) (generate_username (entropy w) k seed) (issue Select d) = Some y"
        by (simp add: users_exists_def)
      from IH [OF this] show ?thesis by simp
    qed
  qed
qed

lemma unique_username_frame:
  "unique_username w seed k uname d = Some (res, d') \<Longrightarrow>
     users d' = users d \<and> next_id d' = next_id d \<and> profiles d' = profiles d"
  using unique_username_frame_aux [of w seed k uname d "(res, d')"] by simp

text \<open>
  The loop returns as soon as a candidate is free: when the candidates \<open>j, .., j+m-1\<close>
  are taken and the candidate \<open>j+m\<close> is not, it returns that one after \<open>m+1\<close> reads.
\<close>

lemma unique_username_returns:
  assumes "reliable w"
    and "\<not> list_ex (\<lambda>u. username u = generate_username (entropy w) (j + m) seed) (users d)"
    and "\<forall>i<m. list_ex (\<lambda>u. username u = generate_username (entropy w) (j + i) seed) (users d)"
  shows "unique_username w seed (Suc j) (generate_username (entropy w) j seed) d =
           Some (Inr (generate_username (entropy w) (j + m) seed),
                 d\<lparr>queries := queries d @ replicate (Suc m) Select\<rparr>)"
  using assms(2,3)
proof (induction m arbitrary: j d)
  case 0
  have up: "db_up w (length (queries d))" using assms(1) by (simp add: reliable_def)
  show ?case using 0 up
    by (subst unique_username.simps) (simp add: users_exists_def issue_def)
next
  case (Suc m)
  have up: "db_up w (length (queries d))" using assms(1) by (simp add: reliable_def)
  have taken: "list_ex (\<lambda>u. username u = generate_username (entropy w) j seed) (users d)"
    using Suc.prems(2) by (metis add.right_neutral zero_less_Suc)
  have a: "\<not> list_ex (\<lambda>u. username u = generate_username (entropy w) (Suc j + m) seed) (users (issue Select d))"
    using Suc.prems(1) by simp
  have b: "\<forall>i<m. list_ex (\<lambda>u. username u = generate_username (entropy w) (Suc j + i) seed) (users (issue Select d))"
  proof (intro allI impI)
    fix i assume "i < m"
    then have "Suc i < Suc m" by simp
    from Suc.prems(2) [rule_format, OF this] show
      "list_ex (\<lambda>u. username u = generate_username (entropy w) (Suc j + i) seed) (users (issue Select d))"
      by simp
  qed
  have step: "unique_username w seed (Suc j) (generate_username (entropy w) j seed) d =
       unique_username w seed (Suc (Suc j)) (generate_username (entropy w) (Suc j) seed) (issue Select d)"
    using up taken by (subst unique_username.simps) (simp add: users_exists_def)
  show ?case
    unfolding step Suc.IH [OF a b]
    by (simp add: issue_def replicate_app_Cons_same)
qed

lemma least_free_candidate:
  assumes "\<exists>k. \<not> list_ex (\<lambda>u. username u = generate_username rnd k seed) rows"
  shows "\<exists>m. \<not> list_ex (\<lambda>u. username u = generate_username rnd m seed) rows
            \<and> (\<forall>i<m. list_ex (\<lambda>u. username u = generate_username rnd i seed) rows)"
proof -
  let ?Q = "\<lambda>k. \<not> list_ex (\<lambda>u. username u = generate_username rnd k seed) rows"
  from assms obtain k where "?Q k" by blast
  then have "?Q (LEAST k. ?Q k)" by (rule LeastI)
  moreover have "\<forall>i<(LEAST k. ?Q k). \<not> ?Q i" using not_less_Least by blast
  ultimately show ?thesis by blast
qed

subsection \<open>Lists and well-formed databases\<close>

lemma find_None_iff2: "find P xs = None \<longleftrightarrow> (\<forall>x\<in>set xs. \<not> P x)"
  by (induction xs) auto

lemma find_Some_props: "find P xs = Some x \<Longrightarrow> x \<in> set xs \<and> P x"
  by (induction xs) (auto split: if_splits)

lemma find_mem: "x \<in> set xs \<Longrightarrow> P x \<Longrightarrow> \<exists>y. find P xs = Some y"
  by (induction xs) auto

lemma find_after_replace:
  assumes "\<forall>x\<in>set xs. \<not> P x" "distinct (map pk xs)" "r \<in> set xs" "P (f r)"
  shows "find P (map (\<lambda>x. if pk x = pk r then f x else x) xs) = Some (f r)"
  using assms
proof (induction xs)
  case Nil
  then show ?case by simp
next
  case (Cons x xs)
  show ?case
  proof (cases "x = r")
    case True
    with Cons.prems show ?thesis by simp
  next
    case False
    with Cons.prems have "r \<in> set xs" "pk x \<noteq> pk r" by auto
    with Cons show ?thesis by simp
  qed
qed

lemma find_append_last:
  assumes "\<forall>x\<in>set xs. \<not> P x" "P u"
  shows "find P (xs @ [u]) = Some u"
  using assms by (induction xs) auto

lemma map_replace_one:
  assumes "distinct (map pk xs)" "r \<in> set xs"
  shows "map (\<lambda>x. if pk x = pk r then f x else x) xs = map (\<lambda>x. if x = r then f r else x) xs"
proof (rule map_cong [OF refl])
  fix x assume "x \<in> set xs"
  have "inj_on pk (set xs)" using assms(1) by (simp add: distinct_map)
  then have "pk x = pk r \<longleftrightarrow> x = r"
    using \<open>x \<in> set xs\<close> assms(2) by (auto dest: inj_onD)
  then show "(if pk x = pk r then f x else x) = (if x = r then f r else x)" by auto
qed

lemma map_replace_last:
  assumes "\<forall>x\<in>set xs. pk x \<noteq> n" "pk c = n"
  shows "map (\<lambda>x. if pk x = n then u else x) (xs @ [c]) = xs @ [u]"
  using assms by (induction xs) auto

lemma wf_pk_unique:
  assumes "wf_db d" "u \<in> set (users d)" "v \<in> set (users d)" "pk u = pk v"
  shows "u = v"
proof -
  have "distinct (map pk (users d))" using assms by (simp add: wf_db_def)
  then have "inj_on pk (set (users d))" by (simp add: distinct_map)
  then show ?thesis using assms by (auto dest: inj_onD)
qed

lemma wf_no_violation:
  assumes "wf_db d" "u \<in> set (users d)" "v \<in> set (users d)" "pk v \<noteq> pk u"
  shows "username v \<noteq> username u" "email v \<noteq> email u"
    "sso_id u \<noteq> None \<Longrightarrow> sso_id v \<noteq> sso_id u"
proof -
  have nv: "\<not> violates_unique u (users d)"
    using assms(1,2) by (auto simp: wf_db_def list_all_iff)
  then have *: "\<not> (username v = username u \<or> email v = email u \<or>
                 (sso_id u \<noteq> None \<and> sso_id v = sso_id u))"
    using assms(3,4) unfolding violates_unique_def list_ex_iff by blast
  from * show "username v \<noteq> username u" by simp
  from * show "email v \<noteq> email u" by simp
  from * show "sso_id u \<noteq> None \<Longrightarrow> sso_id v \<noteq> sso_id u" by simp
qed

lemma wf_sso_unique:
  assumes "wf_db d" "u \<in> set (users d)" "v \<in> set (users d)" "sso_id u = Some s" "sso_id v = Some s"
  shows "u = v"
proof -
  have "pk v = pk u"
    using wf_no_violation(3) [OF assms(1,2,3)] assms(4,5) by auto
  then show ?thesis using wf_pk_unique [OF assms(1,2,3)] by simp
qed

lemma wf_email_unique:
  assumes "wf_db d" "u \<in> set (users d)" "v \<in> set (users d)" "email u = email v"
  shows "u = v"
proof -
  have "pk v = pk u"
    using wf_no_violation(2) [OF assms(1,2,3)] assms(4) by auto
  then show ?thesis using wf_pk_unique [OF assms(1,2,3)] by simp
qed

lemma wf_db0: "wf_db db0"
  by (simp add: wf_db_def db0_def alice_def bob_def violates_unique_def)

lemma reliable_world0: "reliable world0"
  by (simp add: reliable_def world0_def)

lemma gen0: "generate_username (\<lambda>i. i) 0 ''bob@other.example'' = ''bob_abcdef''"
  by (simp add: generate_username_def secrets_choice_def ascii_lowercase_digits_def upt_rec)

lemma gen1: "generate_username (\<lambda>i. i) (Suc 0) ''bob@other.example'' = ''bob_ghijkl''"
  by (simp add: generate_username_def secrets_choice_def ascii_lowercase_digits_def upt_rec)

subsection \<open>The three paths of account resolution\<close>

text \<open>What a successful resolution did: it returned a matching row and wrote nothing, or
  it linked the row found by email, or it appended one new row.\<close>

lemma find_or_create_user_success:
  assumes "find_or_create_user w ui d = Some (Inr u, d')"
  shows "(find (\<lambda>u. sso_provider u = Some (ui_provider ui) \<and> sso_id u = Some (ui_sso_id ui)) (users d) = Some u
            \<and> users d' = users d)
       \<or> (find (\<lambda>u. sso_provider u = Some (ui_provider ui) \<and> sso_id u = Some (ui_sso_id ui)) (users d) = None
            \<and> (\<exists>r. find (\<lambda>u. email u = ui_email ui) (users d) = Some r
                   \<and> u = r\<lparr>sso_provider := Some (ui_provider ui), sso_id := Some (ui_sso_id ui)\<rparr>
                   \<and> users d' = map (\<lambda>x. if pk x = pk r then sso_fields u x else x) (users d)))
       \<or> (find (\<lambda>u. sso_provider u = Some (ui_provider ui) \<and> sso_id u = Some (ui_sso_id ui)) (users d) = None
            \<and> (\<exists>c. pk c = next_id d \<and> u = c\<lparr>password := Unusable\<rparr>
                   \<and> sso_provider c = Some (ui_provider ui) \<and> sso_id c = Some (ui_sso_id ui)
                   \<and> users d' = map (\<lambda>x. if pk x = next_id d then u else x) (users d @ [c])))"
proof -
  let ?P = "\<lambda>u. sso_provider u = Some (ui_provider ui) \<and> sso_id u = Some (ui_sso_id ui)"
  obtain r1 d1 where s1: "users_first w ?P d = (r1, d1)" by (cases "users_first w ?P d")
  from users_first_cases [OF s1] have d1: "d1 = issue Select d"
    and r1: "r1 = Inl OperationalError \<or> r1 = Inr (find ?P (users d))" by auto
  show ?thesis
  proof (cases "find ?P (users d)")
    case (Some x)
    with assms s1 r1 d1 show ?thesis
      by (auto simp: find_or_create_user_def)
  next
    case None
    with assms s1 r1 have r1': "r1 = Inr None" by (auto simp: find_or_create_user_def)
    obtain r2 d2 where s2: "(if ui_email ui \<noteq> [] then users_first w (\<lambda>u. email u = ui_email ui) d1
                             else (Inr None, d1)) = (r2, d2)"
      by (cases "(if ui_email ui \<noteq> [] then users_first w (\<lambda>u. email u = ui_email ui) d1
                             else (Inr None, d1))")
    have d2u: "users d2 = users d" "next_id d2 = next_id d"
      using s2 d1 by (auto simp: users_first_def split: if_splits)
    have r2: "r2 = Inl OperationalError \<or> r2 = Inr None \<or>
              r2 = Inr (find (\<lambda>u. email u = ui_email ui) (users d))"
      using s2 d1 by (auto simp: users_first_def split: if_splits)
    show ?thesis
    proof (cases r2)
      case (Inl e)
      with assms s1 r1' s2 show ?thesis by (simp add: find_or_create_user_def)
    next
      case (Inr fo)
      show ?thesis
      proof (cases fo)
        case (Some found)
        let ?user = "found\<lparr>sso_provider := Some (ui_provider ui), sso_id := Some (ui_sso_id ui)\<rparr>"
        have fnd: "find (\<lambda>u. email u = ui_email ui) (users d) = Some found"
          using r2 Inr Some by auto
        obtain r3 d3 where s3: "users_save w sso_fields ?user d2 = (r3, d3)"
          by (cases "users_save w sso_fields ?user d2")
        from assms s1 r1' s2 Inr Some s3 have "r3 = Inr ()" "u = ?user" "d' = d3"
          by (auto simp: find_or_create_user_def Let_def split: sum.splits)
        with users_save_cases [OF s3] d2u fnd None show ?thesis by auto
      next
        case None2: None
        let ?seed = "str_or (ui_email ui) ''user''"
        from assms s1 r1' s2 Inr None2 obtain uname d3 where
          s3: "unique_username w ?seed 1 (generate_username (entropy w) 0 ?seed) d2 = Some (Inr uname, d3)"
          by (auto simp: find_or_create_user_def split: option.splits sum.splits)
        have d3u: "users d3 = users d" "next_id d3 = next_id d"
          using unique_username_frame [OF s3] d2u by auto
        let ?kw = "\<lparr>pk = 0, username = uname, email = ui_email ui,
                             first_name = opt_or (ui_first_name ui) [],
                             last_name = opt_or (ui_last_name ui) [],
                             password = Blank,
                             sso_provider = Some (ui_provider ui),
                             sso_id = Some (ui_sso_id ui),
                             onboarding_completed = False\<rparr>"
        obtain r4 d4 where s4: "users_create w ?kw d3 = (r4, d4)" by (cases "users_create w ?kw d3")
        from assms s1 r1' s2 Inr None2 s3 s4 obtain created where r4: "r4 = Inr created"
          by (auto simp: find_or_create_user_def split: sum.splits)
        with users_create_cases [OF s4] have cr: "created = ?kw\<lparr>pk := next_id d3\<rparr>"
          and d4: "users d4 = users d3 @ [created]" by auto
        let ?user = "created\<lparr>password := Unusable\<rparr>"
        obtain r5 d5 where s5: "users_save w all_fields ?user d4 = (r5, d5)"
          by (cases "users_save w all_fields ?user d4")
        from assms s1 r1' s2 Inr None2 s3 s4 r4 s5 have fin: "r5 = Inr ()" "u = ?user" "d' = d5"
          by (auto simp: find_or_create_user_def Let_def split: sum.splits)
        have pkc: "pk created = next_id d" using cr d3u by simp
        have "users d5 = map (\<lambda>x. if pk x = pk ?user then all_fields ?user x else x) (users d4)"
          using users_save_cases [OF s5] fin(1) by auto
        then have ud': "users d' = map (\<lambda>x. if pk x = next_id d then u else x) (users d @ [created])"
          using fin pkc d4 d3u by (simp add: all_fields_def)
        have "sso_provider created = Some (ui_provider ui)" "sso_id created = Some (ui_sso_id ui)"
          using cr by simp_all
        with pkc fin(2) ud' None show ?thesis by blast
      qed
    qed
  qed
qed

text \<open>
  Resolution keeps the database well-formed, whatever it returns: the uniqueness checks
  of the store let no conflicting row in.
\<close>

lemma violates_unique_iff:
  "violates_unique row rows \<longleftrightarrow>
     (\<exists>r\<in>set rows. pk r \<noteq> pk row \<and>
        (username r = username row \<or> email r = email row \<or>
         (sso_id row \<noteq> None \<and> sso_id r = sso_id row)))"
  by (simp add: violates_unique_def list_ex_iff)

lemma violates_unique_password [simp]:
  "violates_unique (c\<lparr>password := p\<rparr>) rows = violates_unique c rows"
  by (simp add: violates_unique_def)

lemma wf_db_frame:
  "wf_db d \<Longrightarrow> users d' = users d \<Longrightarrow> next_id d' = next_id d \<Longrightarrow> wf_db d'"
  by (simp add: wf_db_def)

lemma wf_db_append:
  assumes "wf_db d" "\<not> violates_unique c (users d)" "pk c = next_id d"
    and "users d' = users d @ [c]" "next_id d' = Suc (next_id d)"
  shows "wf_db d'"
proof -
  have pk: "\<forall>x\<in>set (users d). pk x < next_id d"
    using assms(1) by (simp add: wf_db_def list_all_iff)
  have nv: "\<forall>x\<in>set (users d). \<not> violates_unique x (users d)"
    using assms(1) by (simp add: wf_db_def list_all_iff)
  have "distinct (map pk (users d'))"
    using assms(1,3,4) pk by (auto simp: wf_db_def)
  moreover have "list_all (\<lambda>u. pk u < next_id d') (users d')"
    using pk assms(3,4,5) by (auto simp: list_all_iff)
  moreover have "list_all (\<lambda>u. \<not> violates_unique u (users d')) (users d')"
    unfolding list_all_iff
  proof
    fix x assume "x \<in> set (users d')"
    then have "x \<in> set (users d) \<or> x = c" using assms(4) by auto
    then show "\<not> violates_unique x (users d')"
    proof
      assume xin: "x \<in> set (users d)"
      have "\<not> violates_unique x (users d)" using nv xin by simp
      moreover have "\<not> (pk c \<noteq> pk x \<and> (username c = username x \<or> email c = email x \<or>
                 (sso_id x \<noteq> None \<and> sso_id c = sso_id x)))"
      proof
        assume a: "pk c \<noteq> pk x \<and> (username c = username x \<or> email c = email x \<or>
                 (sso_id x \<noteq> None \<and> sso_id c = sso_id x))"
        then have "violates_unique c (users d)"
          unfolding violates_unique_iff using xin by (intro bexI [of _ x]) auto
        with assms(2) show False by simp
      qed
      ultimately show ?thesis
        unfolding violates_unique_iff assms(4) by auto
    next
      assume "x = c"
      with assms(2) show ?thesis unfolding violates_unique_iff assms(4) by auto
    qed
  qed
  ultimately show ?thesis by (simp add: wf_db_def)
qed

lemma wf_db_replace:
  assumes wf: "wf_db d" and r: "r \<in> set (users d)" and pk: "pk r' = pk r"
    and nv: "\<not> violates_unique r' (users d)"
    and u: "users d' = map (\<lambda>x. if pk x = pk r then r' else x) (users d)"
    and n: "next_id d' = next_id d"
  shows "wf_db d'"
proof -
  have pks: "map pk (users d') = map pk (users d)"
    unfolding u using pk by (induction "users d") auto
  have lt: "\<forall>x\<in>set (users d). pk x < next_id d"
    using wf by (simp add: wf_db_def list_all_iff)
  have old: "\<forall>x\<in>set (users d). \<not> violates_unique x (users d)"
    using wf by (simp add: wf_db_def list_all_iff)
  have mem: "\<And>x. x \<in> set (users d') \<Longrightarrow> (x \<in> set (users d) \<and> pk x \<noteq> pk r) \<or> x = r'"
    unfolding u by auto
  have "distinct (map pk (users d'))" using wf pks by (simp add: wf_db_def)
  moreover have "list_all (\<lambda>u. pk u < next_id d') (users d')"
    unfolding list_all_iff
  proof
    fix x assume "x \<in> set (users d')"
    from mem [OF this] show "pk x < next_id d'" using lt r pk n by auto
  qed
  moreover have "list_all (\<lambda>u. \<not> violates_unique u (users d')) (users d')"
    unfolding list_all_iff
  proof
    fix x assume xin: "x \<in> set (users d')"
    show "\<not> violates_unique x (users d')"
    proof
      assume "violates_unique x (users d')"
      then obtain y where y: "y \<in> set (users d')" "pk y \<noteq> pk x"
        "username y = username x \<or> email y = email x \<or> (sso_id x \<noteq> None \<and> sso_id y = sso_id x)"
        unfolding violates_unique_iff by blast
      from mem [OF xin] show False
      proof
        assume x: "x \<in> set (users d) \<and> pk x \<noteq> pk r"
        from mem [OF y(1)] show False
        proof
          assume "y \<in> set (users d) \<and> pk y \<noteq> pk r"
          then have "violates_unique x (users d)"
            unfolding violates_unique_iff using y(2,3) by blast
          with old x show False by simp
        next
          assume "y = r'"
          then have "violates_unique r' (users d)"
            unfolding violates_unique_iff using x y(2,3) by (intro bexI [of _ x]) auto
          with nv show False by simp
        qed
      next
        assume x: "x = r'"
        from mem [OF y(1)] show False
        proof
          assume "y \<in> set (users d) \<and> pk y \<noteq> pk r"
          then have "violates_unique r' (users d)"
            unfolding violates_unique_iff using x y(2,3) by blast
          with nv show False by simp
        next
          assume "y = r'"
          with x y(2) show False by simp
        qed
      qed
    qed
  qed
  ultimately show ?thesis by (simp add: wf_db_def)
qed

lemma users_save_frame:
  "users_save w cols obj d = (res, d') \<Longrightarrow> next_id d' = next_id d \<and> profiles d' = profiles d"
  by (auto simp: users_save_def split: if_splits)

lemma users_save_ok:
  assumes "users_save w cols obj d = (Inr x, d')" "r \<in> set (users d)" "pk r = pk obj"
  shows "\<not> violates_unique (cols obj r) (users d)"
  using assms by (auto simp: users_save_def list_ex_iff split: if_splits)

lemma users_save_error:
  "users_save w cols obj d = (Inl e, d') \<Longrightarrow> users d' = users d"
  by (auto simp: users_save_def split: if_splits)

lemma find_or_create_user_wf:
  assumes wf: "wf_db d" and run: "find_or_create_user w ui d = Some (res, d')"
  shows "wf_db d'"
proof -
  let ?P = "\<lambda>u. sso_provider u = Some (ui_provider ui) \<and> sso_id u = Some (ui_sso_id ui)"
  obtain r1 d1 where s1: "users_first w ?P d = (r1, d1)" by (cases "users_first w ?P d")
  from users_first_cases [OF s1] have d1: "d1 = issue Select d" by auto
  have wf1: "wf_db d1" using wf d1 by (simp add: wf_db_def)
  show ?thesis
  proof (cases r1)
    case (Inl e1)
    with run s1 wf1 show ?thesis by (auto simp: find_or_create_user_def)
  next
    case (Inr m1)
    show ?thesis
    proof (cases m1)
      case (Some x)
      with run s1 Inr wf1 show ?thesis by (auto simp: find_or_create_user_def)
    next
      case None
      obtain r2 d2 where s2: "(if ui_email ui \<noteq> [] then users_first w (\<lambda>u. email u = ui_email ui) d1
                               else (Inr None, d1)) = (r2, d2)"
        by (cases "(if ui_email ui \<noteq> [] then users_first w (\<lambda>u. email u = ui_email ui) d1
                               else (Inr None, d1))")
      have d2u: "users d2 = users d" "next_id d2 = next_id d"
        using s2 d1 by (auto simp: users_first_def split: if_splits)
      have wf2: "wf_db d2" using wf d2u by (rule wf_db_frame)
      have r2: "r2 = Inl OperationalError \<or> r2 = Inr None \<or>
              r2 = Inr (find (\<lambda>u. email u = ui_email ui) (users d))"
        using s2 d1 by (auto simp: users_first_def split: if_splits)
      show ?thesis
      proof (cases r2)
        case (Inl e2)
        with run s1 Inr None s2 wf2 show ?thesis by (auto simp: find_or_create_user_def)
      next
        case Inr2: (Inr fo)
        show ?thesis
        proof (cases fo)
          case (Some found)
          let ?user = "found\<lparr>sso_provider := Some (ui_provider ui), sso_id := Some (ui_sso_id ui)\<rparr>"
          have fin: "found \<in> set (users d2)"
            using r2 Inr2 Some find_Some_props [of "\<lambda>u. email u = ui_email ui" "users d" found] d2u
            by auto
          obtain r3 d3 where s3: "users_save w sso_fields ?user d2 = (r3, d3)"
            by (cases "users_save w sso_fields ?user d2")
          from run s1 Inr None s2 Inr2 Some s3 have d': "d' = d3"
            by (auto simp: find_or_create_user_def Let_def split: sum.splits)
          have n3: "next_id d3 = next_id d2" using users_save_frame [OF s3] by simp
          show ?thesis
          proof (cases r3)
            case (Inl e3)
            with s3 have "users d3 = users d2" by (auto dest: users_save_error)
            with wf2 n3 d' show ?thesis by (auto intro: wf_db_frame)
          next
            case Inr3: (Inr x3)
            have sf: "sso_fields ?user found = ?user" by (simp add: sso_fields_def)
            have nv: "\<not> violates_unique ?user (users d2)"
              using users_save_ok [OF s3 [unfolded Inr3] fin] sf by simp
            have "users d3 = map (\<lambda>r. if pk r = pk ?user then sso_fields ?user r else r) (users d2)"
              using users_save_cases [OF s3] Inr3 by auto
            also have "\<dots> = map (\<lambda>x. if x = found then sso_fields ?user found else x) (users d2)"
              using map_replace_one [of "users d2" found "sso_fields ?user"] wf2 fin
              by (simp add: wf_db_def)
            also have "\<dots> = map (\<lambda>x. if pk x = pk found then ?user else x) (users d2)"
              using map_replace_one [of "users d2" found "\<lambda>x. ?user"] wf2 fin sf
              by (simp add: wf_db_def)
            finally have u3: "users d3 = map (\<lambda>x. if pk x = pk found then ?user else x) (users d2)" .
            from wf_db_replace [OF wf2 fin _ nv u3 n3] d' show ?thesis by simp
          qed
        next
          case None2: None
          let ?seed = "str_or (ui_email ui) ''user''"
          from run s1 Inr None s2 Inr2 None2 obtain r3 d3 where
            s3: "unique_username w ?seed 1 (generate_username (entropy w) 0 ?seed) d2 = Some (r3, d3)"
            by (auto simp: find_or_create_user_def split: option.splits)
          have d3u: "users d3 = users d2" "next_id d3 = next_id d2"
            using unique_username_frame [OF s3] by auto
          have wf3: "wf_db d3" using wf2 d3u by (rule wf_db_frame)
          show ?thesis
          proof (cases r3)
            case (Inl e3)
            with run s1 Inr None s2 Inr2 None2 s3 wf3 show ?thesis
              by (auto simp: find_or_create_user_def)
          next
            case Inr3: (Inr uname)
            let ?kw = "\<lparr>pk = 0, username = uname, email = ui_email ui,
                             first_name = opt_or (ui_first_name ui) [],
                             last_name = opt_or (ui_last_name ui) [],
                             password = Blank,
                             sso_provider = Some (ui_provider ui),
                             sso_id = Some (ui_sso_id ui),
                             onboarding_completed = False\<rparr>"
            obtain r4 d4 where s4: "users_create w ?kw d3 = (r4, d4)" by (cases "users_create w ?kw d3")
            show ?thesis
            proof (cases r4)
              case (Inl e4)
              with run s1 Inr None s2 Inr2 None2 s3 Inr3 s4 have "d' = d4"
                by (auto simp: find_or_create_user_def)
              with users_create_cases [OF s4] Inl wf3 show ?thesis by (auto simp: wf_db_def)
            next
              case Inr4: (Inr created)
              with users_create_cases [OF s4] have cr: "created = ?kw\<lparr>pk := next_id d3\<rparr>"
                and nvc: "\<not> violates_unique created (users d3)"
                and d4: "users d4 = users d3 @ [created]" "next_id d4 = Suc (next_id d3)" by auto
              have pkc: "pk created = next_id d3" using cr by simp
              have wf4: "wf_db d4" using wf_db_append [OF wf3 nvc pkc d4] .
              let ?user = "created\<lparr>password := Unusable\<rparr>"
              obtain r5 d5 where s5: "users_save w all_fields ?user d4 = (r5, d5)"
                by (cases "users_save w all_fields ?user d4")
              from run s1 Inr None s2 Inr2 None2 s3 Inr3 s4 Inr4 s5 have d': "d' = d5"
                by (auto simp: find_or_create_user_def Let_def split: sum.splits)
              have n5: "next_id d5 = next_id d4" using users_save_frame [OF s5] by simp
              have cin: "created \<in> set (users d4)" using d4 by simp
              show ?thesis
              proof (cases r5)
                case (Inl e5)
                with s5 have "users d5 = users d4" by (auto dest: users_save_error)
                with wf4 n5 d' show ?thesis by (auto intro: wf_db_frame)
              next
                case Inr5: (Inr x5)
                have nv: "\<not> violates_unique ?user (users d4)"
                  using users_save_ok [OF s5 [unfolded Inr5] cin] by (simp add: all_fields_def)
                have u5: "users d5 = map (\<lambda>x. if pk x = pk created then ?user else x) (users d4)"
                  using users_save_cases [OF s5] Inr5 by (auto simp: all_fields_def)
                from wf_db_replace [OF wf4 cin _ nv u5 n5] d' show ?thesis by simp
              qed
            qed
          qed
        qed
      qed
    qed
  qed
qed

text \<open>
  C1. When an account of the table carries the assertion's provider and subject id, and
  the lookup reaches the database, resolving returns an account of the table with that
  pair, as it is stored, and the database is as before but for the one SELECT issued: no
  row is written. In a well-formed database the account returned is that very account.
\<close>

theorem exact_match_returns_account:
  assumes "u \<in> set (users d)"
    and "sso_provider u = Some (ui_provider ui)" and "sso_id u = Some (ui_sso_id ui)"
    and "db_up w (length (queries d))"
  shows "\<exists>u'. find_or_create_user w ui d = Some (Inr u', d\<lparr>queries := queries d @ [Select]\<rparr>)
           \<and> u' \<in> set (users d)
           \<and> sso_provider u' = Some (ui_provider ui) \<and> sso_id u' = Some (ui_sso_id ui)
           \<and> (wf_db d \<longrightarrow> u' = u)"
proof -
  let ?P = "\<lambda>u. sso_provider u = Some (ui_provider ui) \<and> sso_id u = Some (ui_sso_id ui)"
  obtain u' where f: "find ?P (users d) = Some u'"
    using find_mem [of u "users d" ?P] assms by auto
  then have m: "u' \<in> set (users d)" and p: "?P u'"
    using find_Some_props [OF f] by auto
  have r: "find_or_create_user w ui d = Some (Inr u', d\<lparr>queries := queries d @ [Select]\<rparr>)"
    using f assms(4) by (simp add: find_or_create_user_def users_first_def issue_def)
  have "wf_db d \<longrightarrow> u' = u"
    using wf_sso_unique [of d u' u] m p assms by auto
  with r m p show ?thesis by blast
qed

theorem exact_match_returns_account_witness:
  "find_or_create_user world0 (assertion ''google'' ''123'' ''alice@example.com'') db0
     = Some (Inr alice, db0\<lparr>queries := [Select]\<rparr>)"
proof -
  have "alice \<in> set (users db0)" by (simp add: db0_def)
  moreover have "sso_provider alice = Some (ui_provider (assertion ''google'' ''123'' ''alice@example.com''))"
    by (simp add: alice_def assertion_def)
  moreover have "sso_id alice = Some (ui_sso_id (assertion ''google'' ''123'' ''alice@example.com''))"
    by (simp add: alice_def assertion_def)
  moreover have "db_up world0 (length (queries db0))" by (simp add: world0_def)
  ultimately obtain u' where
    "find_or_create_user world0 (assertion ''google'' ''123'' ''alice@example.com'') db0
       = Some (Inr u', db0\<lparr>queries := queries db0 @ [Select]\<rparr>)" "wf_db db0 \<longrightarrow> u' = alice"
    using exact_match_returns_account by blast
  then show ?thesis using wf_db0 by (simp add: db0_def)
qed

text \<open>The email-link path, when no other account holds the subject id, and when one
  does.\<close>

lemma link_succeeds:
  assumes wf: "wf_db d"
    and nomatch: "\<forall>u\<in>set (users d). \<not> (sso_provider u = Some (ui_provider ui)
                                        \<and> sso_id u = Some (ui_sso_id ui))"
    and nonempty: "ui_email ui \<noteq> []"
    and r: "r \<in> set (users d)" "email r = ui_email ui"
    and free: "\<forall>x\<in>set (users d). pk x \<noteq> pk r \<longrightarrow> sso_id x \<noteq> Some (ui_sso_id ui)"
    and up: "reliable w"
  shows "find_or_create_user w ui d =
           Some (Inr (r\<lparr>sso_provider := Some (ui_provider ui), sso_id := Some (ui_sso_id ui)\<rparr>),
                 d\<lparr>users := map (\<lambda>x. if x = r
                                      then r\<lparr>sso_provider := Some (ui_provider ui),
                                             sso_id := Some (ui_sso_id ui)\<rparr>
                                      else x) (users d),
                   queries := queries d @ [Select, Select, Update]\<rparr>)
         \<and> (let r' = r\<lparr>sso_provider := Some (ui_provider ui), sso_id := Some (ui_sso_id ui)\<rparr>
            in pk r' = pk r \<and> email r' = email r \<and> username r' = username r
               \<and> first_name r' = first_name r \<and> last_name r' = last_name r
               \<and> password r' = password r
               \<and> onboarding_completed r' = onboarding_completed r)"
proof -
  let ?P = "\<lambda>u. sso_provider u = Some (ui_provider ui) \<and> sso_id u = Some (ui_sso_id ui)"
  let ?r' = "r\<lparr>sso_provider := Some (ui_provider ui), sso_id := Some (ui_sso_id ui)\<rparr>"
  have ups: "\<And>n. db_up w n" using up by (simp add: reliable_def)
  have f1: "find ?P (users d) = None" using nomatch by (simp add: find_None_iff2)
  obtain r0 where f2': "find (\<lambda>u. email u = ui_email ui) (users d) = Some r0"
    using find_mem [of r "users d" "\<lambda>u. email u = ui_email ui"] r by auto
  have "r0 = r"
    using find_Some_props [OF f2'] wf_email_unique [OF wf _ r(1)] r(2) by auto
  with f2' have f2: "find (\<lambda>u. email u = ui_email ui) (users d) = Some r" by simp
  have nov: "\<not> list_ex (\<lambda>x. pk x = pk ?r' \<and> violates_unique (sso_fields ?r' x) (users d)) (users d)"
  proof
    assume "list_ex (\<lambda>x. pk x = pk ?r' \<and> violates_unique (sso_fields ?r' x) (users d)) (users d)"
    then obtain x where x: "x \<in> set (users d)" "pk x = pk r"
      "violates_unique (sso_fields ?r' x) (users d)"
      by (auto simp: list_ex_iff)
    have "x = r" using wf_pk_unique [OF wf x(1) r(1) x(2)] .
    with x(3) have "violates_unique ?r' (users d)" by (simp add: sso_fields_def)
    then obtain y where y: "y \<in> set (users d)" "pk y \<noteq> pk r"
      "username y = username r \<or> email y = email r \<or> sso_id y = Some (ui_sso_id ui)"
      by (auto simp: violates_unique_def list_ex_iff)
    show False
      using y wf_no_violation(1,2) [OF wf r(1) y(1) y(2)] free by auto
  qed
  have m: "map (\<lambda>x. if pk x = pk ?r' then sso_fields ?r' x else x) (users d) =
           map (\<lambda>x. if x = r then ?r' else x) (users d)"
  proof -
    have "distinct (map pk (users d))" using wf by (simp add: wf_db_def)
    from map_replace_one [OF this r(1), of "sso_fields ?r'"] show ?thesis
      by (simp add: sso_fields_def)
  qed
  show ?thesis
    using f1 f2 nonempty nov m ups
    by (simp add: find_or_create_user_def users_first_def users_save_def issue_def Let_def)
qed

lemma link_rejected:
  assumes wf: "wf_db d"
    and nomatch: "\<forall>u\<in>set (users d). \<not> (sso_provider u = Some (ui_provider ui)
                                        \<and> sso_id u = Some (ui_sso_id ui))"
    and nonempty: "ui_email ui \<noteq> []"
    and r: "r \<in> set (users d)" "email r = ui_email ui"
    and held: "\<exists>x\<in>set (users d). pk x \<noteq> pk r \<and> sso_id x = Some (ui_sso_id ui)"
    and up: "reliable w"
  shows "find_or_create_user w ui d =
           Some (Inl IntegrityError, d\<lparr>queries := queries d @ [Select, Select, Update]\<rparr>)"
proof -
  let ?P = "\<lambda>u. sso_provider u = Some (ui_provider ui) \<and> sso_id u = Some (ui_sso_id ui)"
  let ?r' = "r\<lparr>sso_provider := Some (ui_provider ui), sso_id := Some (ui_sso_id ui)\<rparr>"
  have ups: "\<And>n. db_up w n" using up by (simp add: reliable_def)
  have f1: "find ?P (users d) = None" using nomatch by (simp add: find_None_iff2)
  obtain r0 where f2': "find (\<lambda>u. email u = ui_email ui) (users d) = Some r0"
    using find_mem [of r "users d" "\<lambda>u. email u = ui_email ui"] r by auto
  have "r0 = r"
    using find_Some_props [OF f2'] wf_email_unique [OF wf _ r(1)] r(2) by auto
  with f2' have f2: "find (\<lambda>u. email u = ui_email ui) (users d) = Some r" by simp
  from held obtain x where x: "x \<in> set (users d)" "pk x \<noteq> pk r" "sso_id x = Some (ui_sso_id ui)"
    by blast
  have "violates_unique ?r' (users d)"
    unfolding violates_unique_iff using x by (intro bexI [of _ x]) auto
  then have "violates_unique (sso_fields ?r' r) (users d)" by (simp add: sso_fields_def)
  then have v: "list_ex (\<lambda>x. pk x = pk ?r' \<and> violates_unique (sso_fields ?r' x) (users d)) (users d)"
    unfolding list_ex_iff using r(1) by (intro bexI [of _ r]) auto
  show ?thesis
    using f1 f2 nonempty v ups
    by (simp add: find_or_create_user_def users_first_def users_save_def issue_def Let_def)
qed

text \<open>
  C2 (as amended). In a well-formed database, for an assertion whose provider and subject
  id match no account and whose email is not empty and is the email of the account
  \<open>r\<close>, every statement reaching the database: when no other account holds the
  subject id, resolving returns \<open>r\<close> with its provider and subject id set to the
  assertion's, stores exactly that in place of \<open>r\<close> and leaves every other row, the
  profiles and the key counter as they were (two SELECTs and one UPDATE), the email,
  username, names, password, key and onboarding flag of the account being unchanged;
  when another account holds the subject id, the UPDATE is rejected with a uniqueness
  violation and no row is changed.
\<close>

theorem email_link_sets_sso_fields:
  assumes wf: "wf_db d"
    and nomatch: "\<forall>u\<in>set (users d). \<not> (sso_provider u = Some (ui_provider ui)
                                        \<and> sso_id u = Some (ui_sso_id ui))"
    and nonempty: "ui_email ui \<noteq> []"
    and r: "r \<in> set (users d)" "email r = ui_email ui"
    and up: "reliable w"
  shows "((\<forall>x\<in>set (users d). pk x \<noteq> pk r \<longrightarrow> sso_id x \<noteq> Some (ui_sso_id ui)) \<longrightarrow>
          find_or_create_user w ui d =
            Some (Inr (r\<lparr>sso_provider := Some (ui_provider ui), sso_id := Some (ui_sso_id ui)\<rparr>),
                  d\<lparr>users := map (\<lambda>x. if x = r
                                       then r\<lparr>sso_provider := Some (ui_provider ui),
                                              sso_id := Some (ui_sso_id ui)\<rparr>
                                       else x) (users d),
                    queries := queries d @ [Select, Select, Update]\<rparr>)
          \<and> (let r' = r\<lparr>sso_provider := Some (ui_provider ui), sso_id := Some (ui_sso_id ui)\<rparr>
             in pk r' = pk r \<and> email r' = email r \<and> username r' = username r
                \<and> first_name r' = first_name r \<and> last_name r' = last_name r
                \<and> password r' = password r
                \<and> onboarding_completed r' = onboarding_completed r))
       \<and> ((\<exists>x\<in>set (users d). pk x \<noteq> pk r \<and> sso_id x = Some (ui_sso_id ui)) \<longrightarrow>
          find_or_create_user w ui d =
            Some (Inl IntegrityError, d\<lparr>queries := queries d @ [Select, Select, Update]\<rparr>))"
proof (intro conjI impI)
  assume free: "\<forall>x\<in>set (users d). pk x \<noteq> pk r \<longrightarrow> sso_id x \<noteq> Some (ui_sso_id ui)"
  from link_succeeds [OF wf nomatch nonempty r free up]
  show "find_or_create_user w ui d =
            Some (Inr (r\<lparr>sso_provider := Some (ui_provider ui), sso_id := Some (ui_sso_id ui)\<rparr>),
                  d\<lparr>users := map (\<lambda>x. if x = r
                                       then r\<lparr>sso_provider := Some (ui_provider ui),
                                              sso_id := Some (ui_sso_id ui)\<rparr>
                                       else x) (users d),
                    queries := queries d @ [Select, Select, Update]\<rparr>)"
    by simp
  show "let r' = r\<lparr>sso_provider := Some (ui_provider ui), sso_id := Some (ui_sso_id ui)\<rparr>
             in pk r' = pk r \<and> email r' = email r \<and> username r' = username r
                \<and> first_name r' = first_name r \<and> last_name r' = last_name r
                \<and> password r' = password r
                \<and> onboarding_completed r' = onboarding_completed r"
    by (simp add: Let_def)
next
  assume held: "\<exists>x\<in>set (users d). pk x \<noteq> pk r \<and> sso_id x = Some (ui_sso_id ui)"
  from link_rejected [OF wf nomatch nonempty r held up]
  show "find_or_create_user w ui d =
            Some (Inl IntegrityError, d\<lparr>queries := queries d @ [Select, Select, Update]\<rparr>)" .
qed

theorem email_link_sets_sso_fields_witness:
  "find_or_create_user world0 (assertion ''apple'' ''a-777'' ''bob@example.com'') db0
     = Some (Inr (bob\<lparr>sso_provider := Some ''apple'', sso_id := Some ''a-777''\<rparr>),
             db0\<lparr>users := [alice, bob\<lparr>sso_provider := Some ''apple'', sso_id := Some ''a-777''\<rparr>],
                 queries := [Select, Select, Update]\<rparr>)
   \<and> find_or_create_user world0 (assertion ''apple'' ''123'' ''bob@example.com'') db0
     = Some (Inl IntegrityError, db0\<lparr>queries := [Select, Select, Update]\<rparr>)"
proof -
  let ?a = "assertion ''apple'' ''a-777'' ''bob@example.com''"
  let ?b = "assertion ''apple'' ''123'' ''bob@example.com''"
  have a1: "\<forall>u\<in>set (users db0). \<not> (sso_provider u = Some (ui_provider ?a) \<and> sso_id u = Some (ui_sso_id ?a))"
    by (simp add: db0_def alice_def bob_def assertion_def)
  have b1: "\<forall>u\<in>set (users db0). \<not> (sso_provider u = Some (ui_provider ?b) \<and> sso_id u = Some (ui_sso_id ?b))"
    by (simp add: db0_def alice_def bob_def assertion_def)
  have a2: "ui_email ?a \<noteq> []" and b2: "ui_email ?b \<noteq> []" by (simp_all add: assertion_def)
  have a3: "bob \<in> set (users db0)" "email bob = ui_email ?a"
    by (simp_all add: db0_def bob_def assertion_def)
  have b3: "bob \<in> set (users db0)" "email bob = ui_email ?b"
    by (simp_all add: db0_def bob_def assertion_def)
  have a4: "\<forall>x\<in>set (users db0). pk x \<noteq> pk bob \<longrightarrow> sso_id x \<noteq> Some (ui_sso_id ?a)"
    by (simp add: db0_def alice_def bob_def assertion_def)
  have b4: "\<exists>x\<in>set (users db0). pk x \<noteq> pk bob \<and> sso_id x = Some (ui_sso_id ?b)"
    by (simp add: db0_def alice_def bob_def assertion_def)
  have ab: "alice \<noteq> bob" by (simp add: alice_def bob_def)
  have A: "find_or_create_user world0 ?a db0
     = Some (Inr (bob\<lparr>sso_provider := Some ''apple'', sso_id := Some ''a-777''\<rparr>),
             db0\<lparr>users := [alice, bob\<lparr>sso_provider := Some ''apple'', sso_id := Some ''a-777''\<rparr>],
                 queries := [Select, Select, Update]\<rparr>)"
    using email_link_sets_sso_fields [OF wf_db0 a1 a2 a3 reliable_world0] a4 ab
    by (simp add: db0_def assertion_def)
  have B: "find_or_create_user world0 ?b db0
     = Some (Inl IntegrityError, db0\<lparr>queries := [Select, Select, Update]\<rparr>)"
    using email_link_sets_sso_fields [OF wf_db0 b1 b2 b3 reliable_world0] b4
    by (simp add: db0_def)
  from A B show ?thesis by simp
qed

text \<open>
  C2 as stated fails: \<open>bob\<close> has the assertion's email and no account has the pair
  (apple, 123), but \<open>alice\<close> holds the subject id 123 under google. The column
  \<^verbatim>\<open>sso_id\<close> is unique on its own, so the UPDATE is rejected and nothing is linked.
\<close>

theorem email_link_counterexample:
  "find (\<lambda>u. sso_provider u = Some ''apple'' \<and> sso_id u = Some ''123'') (users db0) = None
   \<and> find (\<lambda>u. email u = ''bob@example.com'') (users db0) = Some bob
   \<and> find_or_create_user world0 (assertion ''apple'' ''123'' ''bob@example.com'') db0
       = Some (Inl IntegrityError, db0\<lparr>queries := [Select, Select, Update]\<rparr>)"
  by (simp add: find_or_create_user_def users_first_def users_save_def issue_def Let_def
      world0_def db0_def alice_def bob_def assertion_def violates_unique_def sso_fields_def)

text \<open>The provisioning path, when no account holds the subject id, and when one does.\<close>

lemma provision_succeeds:
  assumes wf: "wf_db d"
    and nosso: "\<forall>u\<in>set (users d). sso_id u \<noteq> Some (ui_sso_id ui)"
    and noemail: "\<forall>u\<in>set (users d). email u \<noteq> ui_email ui"
    and up: "reliable w"
    and fresh: "\<exists>k. generate_username (entropy w) k (str_or (ui_email ui) ''user'')
                      \<notin> set (map username (users d))"
  shows "\<exists>k u. find_or_create_user w ui d =
             Some (Inr u, d\<lparr>users := users d @ [u], next_id := Suc (next_id d),
                            queries := queries d @ (if ui_email ui = [] then [Select] else [Select, Select])
                                         @ replicate (Suc k) Select @ [Insert, Update]\<rparr>)
           \<and> u = \<lparr>pk = next_id d,
                  username = generate_username (entropy w) k (str_or (ui_email ui) ''user''),
                  email = ui_email ui,
                  first_name = (case ui_first_name ui of None \<Rightarrow> [] | Some s \<Rightarrow> s),
                  last_name = (case ui_last_name ui of None \<Rightarrow> [] | Some s \<Rightarrow> s),
                  password = Unusable,
                  sso_provider = Some (ui_provider ui),
                  sso_id = Some (ui_sso_id ui),
                  onboarding_completed = False\<rparr>
           \<and> username u \<notin> set (map username (users d))
           \<and> \<not> has_usable_password u"
proof -
  let ?seed = "str_or (ui_email ui) ''user''"
  let ?P = "\<lambda>u. sso_provider u = Some (ui_provider ui) \<and> sso_id u = Some (ui_sso_id ui)"
  have ups: "\<And>n. db_up w n" using up by (simp add: reliable_def)
  have f1: "find ?P (users d) = None" using nosso by (simp add: find_None_iff2)
  have f2: "find (\<lambda>u. email u = ui_email ui) (users d) = None"
    using noemail by (simp add: find_None_iff2)
  have "\<exists>k. \<not> list_ex (\<lambda>u. username u = generate_username (entropy w) k ?seed) (users d)"
  proof -
    from fresh obtain k where
      k: "generate_username (entropy w) k ?seed \<notin> set (map username (users d))" by blast
    have "\<not> list_ex (\<lambda>u. username u = generate_username (entropy w) k ?seed) (users d)"
    proof
      assume "list_ex (\<lambda>u. username u = generate_username (entropy w) k ?seed) (users d)"
      then obtain u where "u \<in> set (users d)" "username u = generate_username (entropy w) k ?seed"
        by (auto simp: list_ex_iff)
      then have "generate_username (entropy w) k ?seed \<in> set (map username (users d))"
        by (metis image_eqI set_map)
      with k show False by simp
    qed
    then show ?thesis by blast
  qed
  from least_free_candidate [OF this] obtain m where
    m: "\<not> list_ex (\<lambda>u. username u = generate_username (entropy w) m ?seed) (users d)"
       "\<forall>i<m. list_ex (\<lambda>u. username u = generate_username (entropy w) i ?seed) (users d)"
    by blast
  let ?name = "generate_username (entropy w) m ?seed"
  define d1 where "d1 = issue Select d"
  define d2 where "d2 = (if ui_email ui = [] then d1 else issue Select d1)"
  have d2u: "users d2 = users d" "next_id d2 = next_id d" by (simp_all add: d2_def d1_def)
  have A: "users_first w ?P d = (Inr None, d1)"
    using f1 ups by (simp add: users_first_def d1_def)
  have B: "(if ui_email ui \<noteq> [] then users_first w (\<lambda>u. email u = ui_email ui) d1
            else (Inr None, d1)) = (Inr None, d2)"
    using f2 ups by (simp add: users_first_def d2_def d1_def)
  define d3 where "d3 = d2\<lparr>queries := queries d2 @ replicate (Suc m) Select\<rparr>"
  have d3u: "users d3 = users d" "next_id d3 = next_id d" by (simp_all add: d3_def d2u)
  have C: "unique_username w ?seed (Suc 0) (generate_username (entropy w) 0 ?seed) d2 =
           Some (Inr ?name, d3)"
    using unique_username_returns [OF up, of 0 m ?seed d2] m by (simp add: d2u d3_def)
  define fn where "fn = (case ui_first_name ui of None \<Rightarrow> [] | Some s \<Rightarrow> s)"
  define ln where "ln = (case ui_last_name ui of None \<Rightarrow> [] | Some s \<Rightarrow> s)"
  have fn: "opt_or (ui_first_name ui) [] = fn"
    by (simp add: fn_def opt_or_def str_or_def split: option.splits)
  have ln: "opt_or (ui_last_name ui) [] = ln"
    by (simp add: ln_def opt_or_def str_or_def split: option.splits)
  define c where "c = \<lparr>pk = next_id d, username = ?name, email = ui_email ui,
                        first_name = fn, last_name = ln, password = Blank,
                        sso_provider = Some (ui_provider ui), sso_id = Some (ui_sso_id ui),
                        onboarding_completed = False\<rparr>"
  have nvc: "\<not> violates_unique c (users d)"
    using m(1) nosso noemail by (auto simp: violates_unique_def list_ex_iff c_def)
  have pklt: "\<forall>x\<in>set (users d). pk x \<noteq> next_id d"
    using wf by (auto simp: wf_db_def list_all_iff)
  let ?u = "c\<lparr>password := Unusable\<rparr>"
  define d4 where "d4 = (issue Insert d3)\<lparr>users := users d3 @ [c], next_id := Suc (next_id d3)\<rparr>"
  have D: "users_create w \<lparr>pk = 0, username = ?name, email = ui_email ui,
                        first_name = fn, last_name = ln, password = Blank,
                        sso_provider = Some (ui_provider ui), sso_id = Some (ui_sso_id ui),
                        onboarding_completed = False\<rparr> d3 = (Inr c, d4)"
    using nvc ups by (simp add: users_create_def d3u d4_def c_def Let_def)
  have nvu: "\<not> list_ex (\<lambda>r. pk r = pk ?u \<and> violates_unique (all_fields ?u r) (users d @ [c])) (users d @ [c])"
    using nvc pklt by (auto simp: list_ex_iff all_fields_def violates_unique_def c_def)
  have rep: "map (\<lambda>r. if pk r = pk ?u then all_fields ?u r else r) (users d @ [c]) = users d @ [?u]"
  proof -
    have "pk c = next_id d" by (simp add: c_def)
    from map_replace_last [OF pklt this, of ?u] show ?thesis
      unfolding all_fields_def by (simp add: c_def)
  qed
  define d5 where "d5 = (issue Update d4)\<lparr>users := users d @ [?u]\<rparr>"
  have d4u: "users d4 = users d @ [c]" by (simp add: d4_def d3u)
  have E: "users_save w all_fields ?u d4 = (Inr (), d5)"
    unfolding users_save_def d4u using nvu rep ups by (simp add: d5_def)
  have d5eq: "d5 = d\<lparr>users := users d @ [?u], next_id := Suc (next_id d),
                      queries := queries d @ (if ui_email ui = [] then [Select] else [Select, Select])
                                   @ replicate (Suc m) Select @ [Insert, Update]\<rparr>"
    by (simp add: d5_def d4_def d3_def d2_def d1_def issue_def)
  have "find_or_create_user w ui d = Some (Inr ?u, d5)"
    by (simp add: find_or_create_user_def A B C D E fn ln Let_def)
  then have res: "find_or_create_user w ui d =
      Some (Inr ?u, d\<lparr>users := users d @ [?u], next_id := Suc (next_id d),
                      queries := queries d @ (if ui_email ui = [] then [Select] else [Select, Select])
                                   @ replicate (Suc m) Select @ [Insert, Update]\<rparr>)"
    by (simp only: d5eq)
  have "username ?u \<notin> set (map username (users d))"
    using m(1) by (auto simp: list_ex_iff c_def)
  moreover have "\<not> has_usable_password ?u" by (simp add: has_usable_password_def)
  moreover have "?u = \<lparr>pk = next_id d, username = ?name, email = ui_email ui,
                  first_name = fn, last_name = ln, password = Unusable,
                  sso_provider = Some (ui_provider ui), sso_id = Some (ui_sso_id ui),
                  onboarding_completed = False\<rparr>"
    by (simp add: c_def)
  ultimately show ?thesis
    using res unfolding fn_def ln_def by blast
qed





lemma gen_alice: "generate_username (\<lambda>i. i) 0 ''alice@example.com'' = ''alice_abcdef''"
  by (simp add: generate_username_def secrets_choice_def ascii_lowercase_digits_def upt_rec)

lemma gen_bob1: "generate_username (\<lambda>i. i) (Suc 0) ''bob@example.com'' = ''bob_ghijkl''"
  by (simp add: generate_username_def secrets_choice_def ascii_lowercase_digits_def upt_rec)






text \<open>After a resolution that returned an account, resolving the same assertion again
  returns that account by the exact match.\<close>

lemma resolve_again:
  assumes wf: "wf_db d"
    and first: "find_or_create_user w ui d = Some (Inr u, d')"
    and up: "db_up w' (length (queries d'))"
  shows "find_or_create_user w' ui d' = Some (Inr u, d'\<lparr>queries := queries d' @ [Select]\<rparr>)
         \<and> length (users d') \<le> Suc (length (users d))"
proof -
  let ?P = "\<lambda>u. sso_provider u = Some (ui_provider ui) \<and> sso_id u = Some (ui_sso_id ui)"
  have dist: "distinct (map pk (users d))" using wf by (simp add: wf_db_def)
  have pklt: "\<forall>x\<in>set (users d). pk x \<noteq> next_id d"
    using wf by (auto simp: wf_db_def list_all_iff)
  have "find ?P (users d') = Some u \<and> length (users d') \<le> Suc (length (users d))"
    using find_or_create_user_success [OF first]
  proof (elim disjE conjE exE)
    assume "find ?P (users d) = Some u" "users d' = users d"
    then show ?thesis by simp
  next
    fix r
    assume none: "find ?P (users d) = None"
      and r: "find (\<lambda>u. email u = ui_email ui) (users d) = Some r"
      and u: "u = r\<lparr>sso_provider := Some (ui_provider ui), sso_id := Some (ui_sso_id ui)\<rparr>"
      and ud: "users d' = map (\<lambda>x. if pk x = pk r then sso_fields u x else x) (users d)"
    have rin: "r \<in> set (users d)" using find_Some_props [OF r] by simp
    have np: "\<forall>x\<in>set (users d). \<not> ?P x" using none by (simp add: find_None_iff2)
    have fr: "sso_fields u r = u" by (simp add: sso_fields_def u)
    have "?P (sso_fields u r)" unfolding fr by (simp add: u)
    from find_after_replace [of "users d" ?P r "sso_fields u", OF np dist rin this]
    show ?thesis by (simp add: ud fr)
  next
    fix c
    assume none: "find ?P (users d) = None"
      and c: "pk c = next_id d" "u = c\<lparr>password := Unusable\<rparr>"
        "sso_provider c = Some (ui_provider ui)" "sso_id c = Some (ui_sso_id ui)"
      and ud: "users d' = map (\<lambda>x. if pk x = next_id d then u else x) (users d @ [c])"
    have np: "\<forall>x\<in>set (users d). \<not> ?P x" using none by (simp add: find_None_iff2)
    have ud': "users d' = users d @ [u]"
      using map_replace_last [OF pklt c(1), of u] ud by simp
    have "?P u" using c by simp
    from find_append_last [of "users d" ?P u, OF np this] show ?thesis by (simp add: ud')
  qed
  then show ?thesis
    using up by (simp add: find_or_create_user_def users_first_def issue_def)
qed

lemma exact_eval:
  "find_or_create_user world0 (assertion ''google'' ''123'' ''alice@example.com'') db0
     = Some (Inr alice, db0\<lparr>queries := [Select]\<rparr>)"
  by (simp add: find_or_create_user_def users_first_def issue_def
      world0_def db0_def alice_def bob_def assertion_def)

lemma link_eval:
  "find_or_create_user world0 (assertion ''apple'' ''a-777'' ''bob@example.com'') db0
     = Some (Inr bob_linked, db0\<lparr>users := [alice, bob_linked], queries := [Select, Select, Update]\<rparr>)"
  by (simp add: find_or_create_user_def users_first_def users_save_def issue_def Let_def
      world0_def db0_def alice_def bob_def bob_linked_def assertion_def violates_unique_def
      sso_fields_def)

lemma provision_eval:
  "find_or_create_user world0 (assertion ''apple'' ''a-888'' ''bob@other.example'') db0
     = Some (Inr bob_other,
             db0\<lparr>users := [alice, bob, bob_other], next_id := 4,
                 queries := [Select, Select, Select, Select, Insert, Update]\<rparr>)"
  by (simp add: find_or_create_user_def users_first_def users_save_def users_create_def
      users_exists_def issue_def Let_def unique_username.simps gen0 gen1 bob_other_def
      world0_def db0_def alice_def bob_def assertion_def violates_unique_def all_fields_def
      str_or_def opt_or_def)

text \<open>
  C4 (as amended). In a well-formed database, every statement reaching it, when every
  account that holds the assertion's subject id has the assertion's provider or the
  assertion's email, an assertion with an empty email meets no account with an empty
  email, and some draw gives a username that is not taken: the first resolution returns
  an account with the assertion's provider and subject id (by exact match, email link or
  provisioning), the second resolution of the same assertion on the resulting database
  returns the same account and issues one SELECT only, and the first added at most one
  row.
\<close>

theorem resolve_twice_same_account:
  assumes wf: "wf_db d"
    and up: "reliable w" and up': "reliable w'"
    and holders: "\<forall>x\<in>set (users d). sso_id x = Some (ui_sso_id ui) \<longrightarrow>
                    sso_provider x = Some (ui_provider ui) \<or> email x = ui_email ui"
    and blank: "ui_email ui = [] \<longrightarrow> (\<forall>x\<in>set (users d). email x \<noteq> [])"
    and fresh: "\<exists>k. generate_username (entropy w) k (str_or (ui_email ui) ''user'')
                      \<notin> set (map username (users d))"
  shows "\<exists>u d'. find_or_create_user w ui d = Some (Inr u, d')
           \<and> find_or_create_user w' ui d' = Some (Inr u, d'\<lparr>queries := queries d' @ [Select]\<rparr>)
           \<and> sso_provider u = Some (ui_provider ui) \<and> sso_id u = Some (ui_sso_id ui)
           \<and> length (users d') \<le> Suc (length (users d))"
proof -
  let ?P = "\<lambda>u. sso_provider u = Some (ui_provider ui) \<and> sso_id u = Some (ui_sso_id ui)"
  have ups: "\<And>n. db_up w n" using up by (simp add: reliable_def)
  have ups': "\<And>n. db_up w' n" using up' by (simp add: reliable_def)
  have "\<exists>u d'. find_or_create_user w ui d = Some (Inr u, d') \<and> ?P u"
  proof (cases "find ?P (users d)")
    case (Some u)
    then have "find_or_create_user w ui d = Some (Inr u, issue Select d)"
      using ups by (simp add: find_or_create_user_def users_first_def)
    moreover have "?P u" using find_Some_props [OF Some] by simp
    ultimately show ?thesis by blast
  next
    case None
    then have nomatch: "\<forall>u\<in>set (users d). \<not> ?P u" by (simp add: find_None_iff2)
    show ?thesis
    proof (cases "ui_email ui \<noteq> [] \<and> (\<exists>r\<in>set (users d). email r = ui_email ui)")
      case True
      then obtain r where r: "r \<in> set (users d)" "email r = ui_email ui" by blast
      have free: "\<forall>x\<in>set (users d). pk x \<noteq> pk r \<longrightarrow> sso_id x \<noteq> Some (ui_sso_id ui)"
      proof (intro ballI impI notI)
        fix x assume x: "x \<in> set (users d)" "pk x \<noteq> pk r" "sso_id x = Some (ui_sso_id ui)"
        with holders nomatch have "email x = ui_email ui" by blast
        then have "x = r" using wf_email_unique [OF wf x(1) r(1)] r(2) by simp
        with x(2) show False by simp
      qed
      from link_succeeds [OF wf nomatch _ r free up] True show ?thesis by auto
    next
      case False
      have noemail: "\<forall>u\<in>set (users d). email u \<noteq> ui_email ui"
        using False blank by auto
      have nosso: "\<forall>u\<in>set (users d). sso_id u \<noteq> Some (ui_sso_id ui)"
        using holders nomatch noemail by blast
      from provision_succeeds [OF wf nosso noemail up fresh] show ?thesis by auto
    qed
  qed
  then obtain u d' where first: "find_or_create_user w ui d = Some (Inr u, d')" and pu: "?P u"
    by blast
  have "db_up w' (length (queries d'))" by (rule ups')
  from resolve_again [OF wf first this] first pu show ?thesis by blast
qed

theorem resolve_twice_same_account_witness:
  "find_or_create_user world0 (assertion ''google'' ''123'' ''alice@example.com'')
       (db0\<lparr>queries := [Select]\<rparr>)
     = Some (Inr alice, db0\<lparr>queries := [Select, Select]\<rparr>)
   \<and> find_or_create_user world0 (assertion ''apple'' ''a-777'' ''bob@example.com'')
       (db0\<lparr>users := [alice, bob_linked], queries := [Select, Select, Update]\<rparr>)
     = Some (Inr bob_linked,
             db0\<lparr>users := [alice, bob_linked], queries := [Select, Select, Update, Select]\<rparr>)
   \<and> find_or_create_user world0 (assertion ''apple'' ''a-888'' ''bob@other.example'')
       (db0\<lparr>users := [alice, bob, bob_other], next_id := 4,
            queries := [Select, Select, Select, Select, Insert, Update]\<rparr>)
     = Some (Inr bob_other,
             db0\<lparr>users := [alice, bob, bob_other], next_id := 4,
                 queries := [Select, Select, Select, Select, Insert, Update, Select]\<rparr>)"
proof -
  let ?a = "assertion ''google'' ''123'' ''alice@example.com''"
  let ?b = "assertion ''apple'' ''a-777'' ''bob@example.com''"
  let ?c = "assertion ''apple'' ''a-888'' ''bob@other.example''"
  have ha: "\<forall>x\<in>set (users db0). sso_id x = Some (ui_sso_id ?a) \<longrightarrow>
                    sso_provider x = Some (ui_provider ?a) \<or> email x = ui_email ?a"
    by (simp add: db0_def alice_def bob_def assertion_def)
  have hb: "\<forall>x\<in>set (users db0). sso_id x = Some (ui_sso_id ?b) \<longrightarrow>
                    sso_provider x = Some (ui_provider ?b) \<or> email x = ui_email ?b"
    by (simp add: db0_def alice_def bob_def assertion_def)
  have hc: "\<forall>x\<in>set (users db0). sso_id x = Some (ui_sso_id ?c) \<longrightarrow>
                    sso_provider x = Some (ui_provider ?c) \<or> email x = ui_email ?c"
    by (simp add: db0_def alice_def bob_def assertion_def)
  have ba: "ui_email ?a = [] \<longrightarrow> (\<forall>x\<in>set (users db0). email x \<noteq> [])"
    and bb: "ui_email ?b = [] \<longrightarrow> (\<forall>x\<in>set (users db0). email x \<noteq> [])"
    and bc: "ui_email ?c = [] \<longrightarrow> (\<forall>x\<in>set (users db0). email x \<noteq> [])"
    by (simp_all add: assertion_def)
  have fa: "\<exists>k. generate_username (entropy world0) k (str_or (ui_email ?a) ''user'')
                      \<notin> set (map username (users db0))"
    by (rule exI [of _ 0])
       (simp add: world0_def assertion_def str_or_def gen_alice db0_def alice_def bob_def)
  have fb: "\<exists>k. generate_username (entropy world0) k (str_or (ui_email ?b) ''user'')
                      \<notin> set (map username (users db0))"
    by (rule exI [of _ "Suc 0"])
       (simp add: world0_def assertion_def str_or_def gen_bob1 db0_def alice_def bob_def)
  have fc: "\<exists>k. generate_username (entropy world0) k (str_or (ui_email ?c) ''user'')
                      \<notin> set (map username (users db0))"
    by (rule exI [of _ "Suc 0"])
       (simp add: world0_def assertion_def str_or_def gen1 db0_def alice_def bob_def)
  from resolve_twice_same_account [OF wf_db0 reliable_world0 reliable_world0 ha ba fa]
  obtain u d' where "find_or_create_user world0 ?a db0 = Some (Inr u, d')"
    "find_or_create_user world0 ?a d' = Some (Inr u, d'\<lparr>queries := queries d' @ [Select]\<rparr>)"
    by blast
  then have A: "find_or_create_user world0 ?a (db0\<lparr>queries := [Select]\<rparr>)
     = Some (Inr alice, db0\<lparr>queries := [Select, Select]\<rparr>)"
    unfolding exact_eval by (auto simp: db0_def)
  from resolve_twice_same_account [OF wf_db0 reliable_world0 reliable_world0 hb bb fb]
  obtain u d' where "find_or_create_user world0 ?b db0 = Some (Inr u, d')"
    "find_or_create_user world0 ?b d' = Some (Inr u, d'\<lparr>queries := queries d' @ [Select]\<rparr>)"
    by blast
  then have B: "find_or_create_user world0 ?b
       (db0\<lparr>users := [alice, bob_linked], queries := [Select, Select, Update]\<rparr>)
     = Some (Inr bob_linked,
             db0\<lparr>users := [alice, bob_linked], queries := [Select, Select, Update, Select]\<rparr>)"
    unfolding link_eval by (auto simp: db0_def)
  from resolve_twice_same_account [OF wf_db0 reliable_world0 reliable_world0 hc bc fc]
  obtain u d' where "find_or_create_user world0 ?c db0 = Some (Inr u, d')"
    "find_or_create_user world0 ?c d' = Some (Inr u, d'\<lparr>queries := queries d' @ [Select]\<rparr>)"
    by blast
  then have C: "find_or_create_user world0 ?c
       (db0\<lparr>users := [alice, bob, bob_other], next_id := 4,
            queries := [Select, Select, Select, Select, Insert, Update]\<rparr>)
     = Some (Inr bob_other,
             db0\<lparr>users := [alice, bob, bob_other], next_id := 4,
                 queries := [Select, Select, Select, Select, Insert, Update, Select]\<rparr>)"
    unfolding provision_eval by (auto simp: db0_def)
  from A B C show ?thesis by simp
qed

text \<open>
  C4 as stated fails: \<open>bob\<close> has the assertion's email and \<open>alice\<close> holds the subject
  id 123 under google, so the first resolution raises the uniqueness violation, and so
  does the second; neither yields an account.
\<close>

theorem resolve_twice_counterexample:
  "find_or_create_user world0 (assertion ''apple'' ''123'' ''bob@example.com'') db0
     = Some (Inl IntegrityError, db0\<lparr>queries := [Select, Select, Update]\<rparr>)
   \<and> find_or_create_user world0 (assertion ''apple'' ''123'' ''bob@example.com'')
        (db0\<lparr>queries := [Select, Select, Update]\<rparr>)
     = Some (Inl IntegrityError,
             db0\<lparr>queries := [Select, Select, Update, Select, Select, Update]\<rparr>)"
  by (simp add: find_or_create_user_def users_first_def users_save_def issue_def Let_def
      world0_def db0_def alice_def bob_def assertion_def violates_unique_def sso_fields_def)

subsection \<open>The sign-in endpoint\<close>

text \<open>A first sign-in in the sample world: the first username drawn is \<open>bob\<close>'s, the
  second is free; the account is inserted and its password marked unusable.\<close>

lemma sso_authenticate_sign_up:
  "sso_authenticate world0 apple_request db0 =
     Some (Response 200 (AuthData ''access'' ''refresh''
              \<lparr>pk = 3, username = ''bob_ghijkl'', email = ''bob@other.example'',
                first_name = [], last_name = [], password = Unusable,
                sso_provider = Some ''apple'', sso_id = Some ''a-888'',
                onboarding_completed = False\<rparr>),
           db0\<lparr>users := [alice, bob,
                   \<lparr>pk = 3, username = ''bob_ghijkl'', email = ''bob@other.example'',
                     first_name = [], last_name = [], password = Unusable,
                     sso_provider = Some ''apple'', sso_id = Some ''a-888'',
                     onboarding_completed = False\<rparr>],
               next_id := 4,
               queries := [Select, Select, Select, Select, Insert, Update]\<rparr>)"
  by (simp add: sso_authenticate_def sso_user_info_def verify_sso_token_def verify_apple_token_def
      truthy_def opt_or_def str_or_def Let_def apple_request_def
      find_or_create_user_def users_first_def users_save_def users_create_def
      users_exists_def issue_def unique_username.simps gen0 gen1
      world0_def db0_def alice_def bob_def violates_unique_def all_fields_def)

text \<open>An exception of the verifier reaches the \<^verbatim>\<open>except\<close> clauses with the database
  untouched: a \<^verbatim>\<open>TokenVerificationError\<close> gives 401, any other exception 500.\<close>

lemma sso_authenticate_verifier_error:
  assumes "rq_provider request = Some p" "p = ''apple'' \<or> p = ''google''"
    and "rq_id_token request = Some t" "t \<noteq> []"
    and "\<not> (DEBUG w \<and> rq_dev_mode request)"
    and "verify_sso_token w p t = Inl e"
  shows "sso_authenticate w request d =
           Some (case e of TokenVerificationError msg \<Rightarrow> Response 401 (Detail msg)
                 | _ \<Rightarrow> Response 500 (Detail ''Authentication failed. Please try again.''), d)"
proof -
  have "sso_user_info w request p t = Inl e"
    using assms by (auto simp: sso_user_info_def)
  then show ?thesis
    using assms(1-4)
    by (cases e) (auto simp: sso_authenticate_def truthy_def opt_or_def str_or_def Let_def)
qed

text \<open>A key that python-jose cannot build raises \<open>JWKError\<close>, which no clause of the
  verifier catches: the endpoint answers 500.\<close>

lemma sso_authenticate_key_error:
  "sso_authenticate (world0\<lparr>jwt_decode := (\<lambda>t key aud iss. Inl (JWKError ''Unable to find an algorithm for key''))\<rparr>)
       apple_request db0
     = Some (Response 500 (Detail ''Authentication failed. Please try again.''), db0)"
  by (simp add: sso_authenticate_def sso_user_info_def verify_sso_token_def verify_apple_token_def
      truthy_def opt_or_def str_or_def Let_def apple_request_def world0_def)

text \<open>
  C5 (as amended). For a sign-in request with provider apple or google and a token,
  outside development mode: when the provider's endpoint cannot be reached
  (\<^verbatim>\<open>requests.get\<close> raises), the verifier raises \<^verbatim>\<open>TokenVerificationError\<close> with the
  message \<open>Failed to verify Apple token\<close> (or \<open>Google\<close>), and the endpoint answers 401
  with that message and writes nothing; every \<^verbatim>\<open>TokenVerificationError\<close> of the
  verifier, an invalid token included, is answered 401 in the same way.
\<close>

theorem unreachable_provider_is_401:
  assumes "rq_provider request = Some p" "p = ''apple'' \<or> p = ''google''"
    and "rq_id_token request = Some t" "t \<noteq> []"
    and "\<not> (DEBUG w \<and> rq_dev_mode request)"
  shows "(p = ''apple'' \<and> apple_keys_get w = RequestException e \<longrightarrow>
            verify_sso_token w p t = Inl (TokenVerificationError ''Failed to verify Apple token'')
          \<and> sso_authenticate w request d =
              Some (Response 401 (Detail ''Failed to verify Apple token''), d))
       \<and> (p = ''google'' \<and> google_tokeninfo_get w t = RequestException e \<longrightarrow>
            verify_sso_token w p t = Inl (TokenVerificationError ''Failed to verify Google token'')
          \<and> sso_authenticate w request d =
              Some (Response 401 (Detail ''Failed to verify Google token''), d))
       \<and> (verify_sso_token w p t = Inl (TokenVerificationError msg) \<longrightarrow>
            sso_authenticate w request d = Some (Response 401 (Detail msg), d))"
proof (intro conjI impI)
  assume a: "p = ''apple'' \<and> apple_keys_get w = RequestException e"
  then show v: "verify_sso_token w p t = Inl (TokenVerificationError ''Failed to verify Apple token'')"
    by (simp add: verify_sso_token_def verify_apple_token_def)
  from sso_authenticate_verifier_error [OF assms v]
  show "sso_authenticate w request d = Some (Response 401 (Detail ''Failed to verify Apple token''), d)"
    by simp
next
  assume a: "p = ''google'' \<and> google_tokeninfo_get w t = RequestException e"
  then show v: "verify_sso_token w p t = Inl (TokenVerificationError ''Failed to verify Google token'')"
    by (simp add: verify_sso_token_def verify_google_token_def)
  from sso_authenticate_verifier_error [OF assms v]
  show "sso_authenticate w request d = Some (Response 401 (Detail ''Failed to verify Google token''), d)"
    by simp
next
  assume v: "verify_sso_token w p t = Inl (TokenVerificationError msg)"
  from sso_authenticate_verifier_error [OF assms v]
  show "sso_authenticate w request d = Some (Response 401 (Detail msg), d)" by simp
qed

theorem unreachable_provider_is_401_witness:
  "sso_authenticate world_timeout apple_request db0
     = Some (Response 401 (Detail ''Failed to verify Apple token''), db0)"
proof -
  let ?w = "world_timeout"
  have 1: "rq_provider apple_request = Some ''apple''" by (simp add: apple_request_def)
  have 2: "''apple'' = ''apple'' \<or> ''apple'' = ''google''" by simp
  have 3: "rq_id_token apple_request = Some ''eyJ.tok''" by (simp add: apple_request_def)
  have 4: "''eyJ.tok'' \<noteq> []" by simp
  have 5: "\<not> (DEBUG ?w \<and> rq_dev_mode apple_request)" by (simp add: world0_def world_timeout_def)
  have 6: "apple_keys_get ?w = RequestException ''timed out''" by (simp add: world_timeout_def)
  from unreachable_provider_is_401 [OF 1 2 3 4 5, of "''timed out''" db0] 6
  show ?thesis by simp
qed

text \<open>
  C5 as stated fails: a timeout of Apple's key endpoint and a token whose signature does
  not verify are both raised as \<^verbatim>\<open>TokenVerificationError\<close> and both answered 401, an
  authentication failure; the unreachable provider is not a server-side failure of its
  own kind.
\<close>

theorem unreachable_provider_counterexample:
  "sso_authenticate world_timeout apple_request db0
     = Some (Response 401 (Detail ''Failed to verify Apple token''), db0)
   \<and> sso_authenticate world_forged apple_request db0
     = Some (Response 401 (Detail ''Invalid Apple token: Signature verification failed.''), db0)
   \<and> verify_apple_token world_timeout ''eyJ.tok''
     = Inl (TokenVerificationError ''Failed to verify Apple token'')
   \<and> verify_apple_token world_forged ''eyJ.tok''
     = Inl (TokenVerificationError ''Invalid Apple token: Signature verification failed.'')"
  by (simp add: sso_authenticate_def sso_user_info_def verify_sso_token_def verify_apple_token_def
      truthy_def opt_or_def str_or_def Let_def apple_request_def world0_def
      world_timeout_def world_forged_def)

lemma clash_info:
  "sso_user_info world_clash apple_request ''apple'' ''eyJ.tok''
     = Inr (assertion ''apple'' ''123'' ''carol@example.com'')"
  by (simp add: sso_user_info_def verify_sso_token_def verify_apple_token_def
      truthy_def str_or_def Let_def apple_request_def world0_def world_clash_def assertion_def)

lemma clash_resolve:
  "find_or_create_user world_clash (assertion ''apple'' ''123'' ''carol@example.com'') db0
       = Some (Inl IntegrityError, db0\<lparr>queries := [Select, Select, Select, Insert]\<rparr>)"
  by (simp add: find_or_create_user_def users_first_def users_save_def users_create_def
      users_exists_def issue_def Let_def unique_username.simps generate_username_def
      secrets_choice_def ascii_lowercase_digits_def upt_rec world_clash_def
      world0_def db0_def alice_def bob_def assertion_def violates_unique_def all_fields_def
      str_or_def opt_or_def)

text \<open>
  C6 (as amended). When the resolution of a verified assertion ends in the store's
  uniqueness violation, the endpoint answers 500 at once, and the database it leaves is
  the one that single resolution left: the lookup-then-act sequence is not run again.
\<close>

theorem integrity_error_is_500_without_retry:
  assumes "rq_provider request = Some p" "p = ''apple'' \<or> p = ''google''"
    and "rq_id_token request = Some t" "t \<noteq> []"
    and "sso_user_info w request p t = Inr user_info"
    and "find_or_create_user w user_info d = Some (Inl IntegrityError, d')"
  shows "sso_authenticate w request d =
           Some (Response 500 (Detail ''Authentication failed. Please try again.''), d')"
  using assms
  by (auto simp: sso_authenticate_def truthy_def opt_or_def str_or_def Let_def)

theorem integrity_error_is_500_without_retry_witness:
  "sso_authenticate world_clash apple_request db0 =
     Some (Response 500 (Detail ''Authentication failed. Please try again.''),
           db0\<lparr>queries := [Select, Select, Select, Insert]\<rparr>)"
proof -
  have 1: "rq_provider apple_request = Some ''apple''" by (simp add: apple_request_def)
  have 2: "''apple'' = ''apple'' \<or> ''apple'' = ''google''" by simp
  have 3: "rq_id_token apple_request = Some ''eyJ.tok''" by (simp add: apple_request_def)
  have 4: "''eyJ.tok'' \<noteq> []" by simp
  from integrity_error_is_500_without_retry [OF 1 2 3 4 clash_info clash_resolve]
  show ?thesis .
qed

text \<open>
  C6 as stated fails: the INSERT of the request is rejected (the subject id 123 is
  \<open>alice\<close>'s), the answer is 500, and the statements of the whole request are the three
  reads and the one INSERT of a single pass; a retry would have issued them again.
\<close>

theorem no_retry_counterexample:
  "sso_authenticate world_clash apple_request db0 =
     Some (Response 500 (Detail ''Authentication failed. Please try again.''),
           db0\<lparr>queries := [Select, Select, Select, Insert]\<rparr>)"
proof -
  have 1: "rq_provider apple_request = Some ''apple''" by (simp add: apple_request_def)
  have 3: "rq_id_token apple_request = Some ''eyJ.tok''" by (simp add: apple_request_def)
  show ?thesis
    by (simp add: sso_authenticate_def 1 3 clash_info clash_resolve truthy_def opt_or_def
        str_or_def Let_def)
qed

subsection \<open>Failed resolutions\<close>

lemma outage_resolve:
  "find_or_create_user world_outage (assertion ''apple'' ''a-888'' ''carol@example.com'') db0
     = Some (Inl OperationalError,
             db0\<lparr>users := [alice, bob, carol_blank], next_id := 4,
                 queries := [Select, Select, Select, Insert, Update]\<rparr>)"
  by (simp add: find_or_create_user_def users_first_def users_save_def users_create_def
      users_exists_def issue_def Let_def unique_username.simps generate_username_def
      secrets_choice_def ascii_lowercase_digits_def upt_rec world_outage_def carol_blank_def
      world0_def db0_def alice_def bob_def assertion_def violates_unique_def all_fields_def
      str_or_def opt_or_def)

text \<open>
  C7 (as amended). Provisioning is two statements, an INSERT and an UPDATE, each
  committed on its own. A resolution that fails leaves the account table as it was, or
  (the INSERT went through, the UPDATE that marks the password unusable failed) longer
  by exactly one row: that row has its key, provider, subject id, email, names and
  onboarding flag set, and a blank password that is not marked unusable.
\<close>

theorem failed_resolution_rows:
  assumes "find_or_create_user w ui d = Some (Inl e, d')"
  shows "users d' = users d
       \<or> (\<exists>c. users d' = users d @ [c]
              \<and> pk c = next_id d
              \<and> sso_provider c = Some (ui_provider ui) \<and> sso_id c = Some (ui_sso_id ui)
              \<and> email c = ui_email ui
              \<and> first_name c = opt_or (ui_first_name ui) []
              \<and> last_name c = opt_or (ui_last_name ui) []
              \<and> onboarding_completed c = False
              \<and> password c = Blank \<and> has_usable_password c
              \<and> (\<exists>qs. queries d' = qs @ [Insert, Update]))"
proof -
  let ?P = "\<lambda>u. sso_provider u = Some (ui_provider ui) \<and> sso_id u = Some (ui_sso_id ui)"
  obtain r1 d1 where s1: "users_first w ?P d = (r1, d1)" by (cases "users_first w ?P d")
  from users_first_cases [OF s1] have d1: "d1 = issue Select d" by auto
  show ?thesis
  proof (cases r1)
    case (Inl e1)
    with assms s1 d1 show ?thesis by (auto simp: find_or_create_user_def)
  next
    case (Inr m1)
    show ?thesis
    proof (cases m1)
      case (Some x)
      with assms s1 Inr show ?thesis by (simp add: find_or_create_user_def)
    next
      case None
      obtain r2 d2 where s2: "(if ui_email ui \<noteq> [] then users_first w (\<lambda>u. email u = ui_email ui) d1
                               else (Inr None, d1)) = (r2, d2)"
        by (cases "(if ui_email ui \<noteq> [] then users_first w (\<lambda>u. email u = ui_email ui) d1
                               else (Inr None, d1))")
      have d2u: "users d2 = users d" "next_id d2 = next_id d"
        using s2 d1 by (auto simp: users_first_def split: if_splits)
      show ?thesis
      proof (cases r2)
        case (Inl e2)
        with assms s1 Inr None s2 d2u show ?thesis by (auto simp: find_or_create_user_def)
      next
        case Inr2: (Inr fo)
        show ?thesis
        proof (cases fo)
          case (Some found)
          let ?user = "found\<lparr>sso_provider := Some (ui_provider ui), sso_id := Some (ui_sso_id ui)\<rparr>"
          obtain r3 d3 where s3: "users_save w sso_fields ?user d2 = (r3, d3)"
            by (cases "users_save w sso_fields ?user d2")
          from assms s1 Inr None s2 Inr2 Some s3 obtain e3 where "r3 = Inl e3" "d' = d3"
            by (auto simp: find_or_create_user_def Let_def split: sum.splits)
          with users_save_cases [OF s3] d2u show ?thesis by auto
        next
          case None2: None
          let ?seed = "str_or (ui_email ui) ''user''"
          from assms s1 Inr None s2 Inr2 None2 obtain r3 d3 where
            s3: "unique_username w ?seed 1 (generate_username (entropy w) 0 ?seed) d2 = Some (r3, d3)"
            by (auto simp: find_or_create_user_def split: option.splits)
          have d3u: "users d3 = users d" "next_id d3 = next_id d"
            using unique_username_frame [OF s3] d2u by auto
          show ?thesis
          proof (cases r3)
            case (Inl e3)
            with assms s1 Inr None s2 Inr2 None2 s3 d3u show ?thesis
              by (auto simp: find_or_create_user_def)
          next
            case Inr3: (Inr uname)
            let ?kw = "\<lparr>pk = 0, username = uname, email = ui_email ui,
                             first_name = opt_or (ui_first_name ui) [],
                             last_name = opt_or (ui_last_name ui) [],
                             password = Blank,
                             sso_provider = Some (ui_provider ui),
                             sso_id = Some (ui_sso_id ui),
                             onboarding_completed = False\<rparr>"
            obtain r4 d4 where s4: "users_create w ?kw d3 = (r4, d4)" by (cases "users_create w ?kw d3")
            show ?thesis
            proof (cases r4)
              case (Inl e4)
              with assms s1 Inr None s2 Inr2 None2 s3 Inr3 s4 have "d' = d4"
                by (auto simp: find_or_create_user_def)
              with users_create_cases [OF s4] Inl d3u show ?thesis by auto
            next
              case Inr4: (Inr created)
              with users_create_cases [OF s4] have cr: "created = ?kw\<lparr>pk := next_id d3\<rparr>"
                and d4: "users d4 = users d3 @ [created]"
                and q4: "queries d4 = queries d3 @ [Insert]" by auto
              let ?user = "created\<lparr>password := Unusable\<rparr>"
              obtain r5 d5 where s5: "users_save w all_fields ?user d4 = (r5, d5)"
                by (cases "users_save w all_fields ?user d4")
              from assms s1 Inr None s2 Inr2 None2 s3 Inr3 s4 Inr4 s5 obtain e5 where
                fin: "r5 = Inl e5" "d' = d5"
                by (auto simp: find_or_create_user_def Let_def split: sum.splits)
              with users_save_cases [OF s5] have d5: "d5 = issue Update d4" by auto
              have u: "users d' = users d @ [created]" using fin d5 d4 d3u by simp
              have q: "queries d' = (queries d3 @ [Insert]) @ [Update]" using fin d5 q4 by simp
              have q1: "\<exists>qs. queries d' = qs @ [Insert, Update]" unfolding q by simp
              have props: "pk created = next_id d"
                "sso_provider created = Some (ui_provider ui)" "sso_id created = Some (ui_sso_id ui)"
                "email created = ui_email ui"
                "first_name created = opt_or (ui_first_name ui) []"
                "last_name created = opt_or (ui_last_name ui) []"
                "onboarding_completed created = False"
                "password created = Blank" "has_usable_password created"
                using cr d3u by (simp_all add: has_usable_password_def)
              from u props q1 show ?thesis by blast
            qed
          qed
        qed
      qed
    qed
  qed
qed

theorem failed_resolution_rows_witness:
  "\<exists>c. [alice, bob, carol_blank] = [alice, bob] @ [c] \<and> pk c = 3
       \<and> sso_provider c = Some ''apple'' \<and> sso_id c = Some ''a-888''
       \<and> email c = ''carol@example.com'' \<and> password c = Blank \<and> has_usable_password c"
proof -
  have "[alice, bob, carol_blank] \<noteq> [alice, bob]" by simp
  with failed_resolution_rows [OF outage_resolve]
  obtain c where "[alice, bob, carol_blank] = [alice, bob] @ [c]" "pk c = 3"
    "sso_provider c = Some ''apple''" "sso_id c = Some ''a-888''"
    "email c = ''carol@example.com''" "password c = Blank" "has_usable_password c"
    by (auto simp: db0_def assertion_def)
  then show ?thesis by blast
qed

text \<open>
  C7 as stated fails: with the database down for the fifth statement of the request (the
  UPDATE after the INSERT), provisioning raises, and the row of the new account stays in
  the table with a blank password, not marked unusable.
\<close>

theorem partial_row_counterexample:
  "find_or_create_user world_outage (assertion ''apple'' ''a-888'' ''carol@example.com'') db0
     = Some (Inl OperationalError,
             db0\<lparr>users := [alice, bob, carol_blank], next_id := 4,
                 queries := [Select, Select, Select, Insert, Update]\<rparr>)
   \<and> carol_blank \<in> set (users (db0\<lparr>users := [alice, bob, carol_blank], next_id := 4,
                 queries := [Select, Select, Select, Insert, Update]\<rparr>))
   \<and> has_usable_password carol_blank"
  by (simp add: outage_resolve) (simp add: carol_blank_def has_usable_password_def)

subsection \<open>Onboarding\<close>

text \<open>A first onboarding of \<open>bob\<close> in the sample world: one profile is inserted and the
  flag of his row is set.\<close>

lemma complete_onboarding_first_time:
  "complete_onboarding world0
      \<lparr>req_user = bob, req_data = [(''target_language'', JStr ''es''), (''quiz_score'', JInt 4)]\<rparr> db0
     = (Inr (Response 200 (OnboardingData (bob\<lparr>onboarding_completed := True\<rparr>)
            \<lparr>user_id = 2, target_language = ''es'', native_language = ''en'',
              proficiency_level = ''intermediate'', goals = [], sessions_per_week = 3,
              session_duration_minutes = 15, notifications_enabled = True,
              reminder_time = None, timezone = ''UTC''\<rparr>)),
        db0\<lparr>users := [alice, bob\<lparr>onboarding_completed := True\<rparr>],
            profiles := [\<lparr>user_id = 2, target_language = ''es'', native_language = ''en'',
              proficiency_level = ''intermediate'', goals = [], sessions_per_week = 3,
              session_duration_minutes = 15, notifications_enabled = True,
              reminder_time = None, timezone = ''UTC''\<rparr>],
            queries := [Select, Insert, Update]\<rparr>)"
  by (simp add: complete_onboarding_def data_get_def parse_time_def calculate_proficiency_def
      profiles_update_or_create_def users_save_def issue_def Let_def onboarding_field_def
      violates_unique_def world0_def db0_def alice_def bob_def)

text \<open>A \<^verbatim>\<open>null\<close> for \<^verbatim>\<open>notifications_enabled\<close> is rejected by the database: three
  statements and the answer 500. An hour beyond a C \<^verbatim>\<open>int\<close> raises out of
  \<^verbatim>\<open>parse_time\<close>; an hour out of range gives no reminder time.\<close>

lemma complete_onboarding_null_notifications:
  "complete_onboarding world0
      \<lparr>req_user = bob, req_data = [(''target_language'', JStr ''fr''),
                                   (''notifications_enabled'', JNull)]\<rparr> db0
     = (Inr (Response 500 (Detail ''Failed to complete onboarding. Please try again.'')),
        db0\<lparr>queries := [Select, Insert, Select]\<rparr>)"
  by (simp add: complete_onboarding_def data_get_def parse_time_def calculate_proficiency_def
      profiles_update_or_create_def issue_def Let_def world0_def db0_def alice_def bob_def)

lemma parse_time_overflow:
  "parse_time (world0\<lparr>int_of_str := (\<lambda>s. if s = ''99999999999'' then Some 99999999999
                                           else if s = ''00'' then Some 0 else None)\<rparr>)
       (JStr ''99999999999:00'') = Inl OverflowError"
  by (simp add: parse_time_def c_int_def Let_def)

lemma parse_time_out_of_range:
  "parse_time (world0\<lparr>int_of_str := (\<lambda>s. if s = ''25'' then Some 25
                                           else if s = ''00'' then Some 0 else None)\<rparr>)
       (JStr ''25:00'') = Inr None"
  by (simp add: parse_time_def c_int_def Let_def)

text \<open>
  C10. For a user whose \<^verbatim>\<open>onboarding_completed\<close> flag is set, \<^verbatim>\<open>complete_onboarding\<close>
  answers 400 whatever the request body holds, and the database is the one it was given:
  no statement is issued, the flag and any profile are as before.
\<close>

theorem completed_onboarding_rejected:
  assumes "onboarding_completed (req_user request)"
  shows "complete_onboarding w request d =
           (Inr (Response 400 (Detail ''Onboarding already completed.'')), d)"
  using assms by (simp add: complete_onboarding_def)

theorem completed_onboarding_rejected_witness:
  "complete_onboarding world0
      \<lparr>req_user = alice, req_data = [(''target_language'', JStr ''es''), (''quiz_score'', JInt 4)]\<rparr> db0
     = (Inr (Response 400 (Detail ''Onboarding already completed.'')), db0)"
proof -
  have "onboarding_completed (req_user
      \<lparr>req_user = alice, req_data = [(''target_language'', JStr ''es''), (''quiz_score'', JInt 4)]\<rparr>)"
    by (simp add: alice_def)
  from completed_onboarding_rejected [OF this] show ?thesis .
qed

end
